theory Spec2Isabelle
  imports Complex_Main
begin

section \<open>rtlobs.collect: the integration engine of an rtl-sdr radio telescope\<close>

text \<open>
  A shallow embedding of \<^verbatim>\<open>src/rtlobs/collect.py\<close>. Python floats are modelled as
  exact reals; the non-finite values that numpy produces instead of raising (a division
  by zero on an array or a numpy scalar) are kept as values of their own. The rtl-sdr
  device, the clock, the periodogram estimator (scipy's welch), the analysis window
  (scipy's get_window) and the file system are external to the module and appear as an
  explicit device state and an environment of functions.
\<close>

subsection \<open>Errors and numbers\<close>

datatype error =
    AssertionError
  | ZeroDivisionError
  | UnboundLocalError
  | ValueError
  | OSError
  | HardwareError

text \<open>Python's \<^verbatim>\<open>int(x)\<close> on a float: truncation towards zero.\<close>

definition py_int :: "real \<Rightarrow> int" where
  "py_int x = (if 0 \<le> x then \<lfloor>x\<rfloor> else \<lceil>x\<rceil>)"

text \<open>Python's \<^verbatim>\<open>a // b\<close> on integers: floor division, raising on a zero divisor.\<close>

definition py_floordiv :: "int \<Rightarrow> int \<Rightarrow> error + int" where
  "py_floordiv a b = (if b = 0 then Inl ZeroDivisionError else Inr (a div b))"

text \<open>Python's \<^verbatim>\<open>a / b\<close> on integers: true division, raising on a zero divisor.\<close>

definition py_truediv :: "int \<Rightarrow> int \<Rightarrow> error + real" where
  "py_truediv a b = (if b = 0 then Inl ZeroDivisionError else Inr (real_of_int a / real_of_int b))"

text \<open>Python's \<^verbatim>\<open>a / b\<close> with a float operand: it raises on a zero divisor too.\<close>

definition py_fdiv :: "real \<Rightarrow> real \<Rightarrow> error + real" where
  "py_fdiv a b = (if b = 0 then Inl ZeroDivisionError else Inr (a / b))"

text \<open>
  A numpy float64 as far as the module can tell the cases apart: a finite value, an
  infinity or not-a-number. Signed zeros and rounding are not modelled; a zero divisor
  counts as positive zero. numpy never raises on these operations (it warns).
\<close>

datatype npfloat = Num real | PosInf | NegInf | NaN

fun np_div :: "npfloat \<Rightarrow> npfloat \<Rightarrow> npfloat" where
  "np_div NaN y = NaN"
| "np_div x NaN = NaN"
| "np_div (Num a) (Num b) =
     (if b \<noteq> 0 then Num (a / b)
      else if a = 0 then NaN
      else if 0 < a then PosInf else NegInf)"
| "np_div (Num a) PosInf = Num 0"
| "np_div (Num a) NegInf = Num 0"
| "np_div PosInf (Num b) = (if 0 \<le> b then PosInf else NegInf)"
| "np_div NegInf (Num b) = (if 0 \<le> b then NegInf else PosInf)"
| "np_div PosInf y = NaN"
| "np_div NegInf y = NaN"

fun np_mul :: "npfloat \<Rightarrow> npfloat \<Rightarrow> npfloat" where
  "np_mul NaN y = NaN"
| "np_mul x NaN = NaN"
| "np_mul (Num a) (Num b) = Num (a * b)"
| "np_mul (Num a) PosInf = (if a = 0 then NaN else if 0 < a then PosInf else NegInf)"
| "np_mul (Num a) NegInf = (if a = 0 then NaN else if 0 < a then NegInf else PosInf)"
| "np_mul PosInf (Num b) = (if b = 0 then NaN else if 0 < b then PosInf else NegInf)"
| "np_mul NegInf (Num b) = (if b = 0 then NaN else if 0 < b then NegInf else PosInf)"
| "np_mul PosInf PosInf = PosInf"
| "np_mul PosInf NegInf = NegInf"
| "np_mul NegInf PosInf = NegInf"
| "np_mul NegInf NegInf = PosInf"

subsection \<open>DC compensation and block power\<close>

text \<open>
  \<^verbatim>\<open>x.mean()\<close> of a numpy array. On an empty array numpy returns not-a-number; the
  only use below subtracts the mean from every element of the same array, which leaves
  an empty array empty whatever the mean is.
\<close>

definition mean :: "real list \<Rightarrow> real" where
  "mean xs = sum_list xs / real (length xs)"

text \<open>
  \<^verbatim>\<open>iq = (iq.real - iq.real.mean()) + (1j * (iq.imag - iq.imag.mean()))\<close>,
  the same line in all four drivers.
\<close>

definition dc_compensate :: "complex list \<Rightarrow> complex list" where
  "dc_compensate iq =
     map (\<lambda>z. complex_of_real (Re z - mean (map Re iq))
              + \<i> * complex_of_real (Im z - mean (map Im iq))) iq"

text \<open>\<^verbatim>\<open>np.sum(np.real(iq * np.conj(iq)))\<close>\<close>

definition block_power :: "complex list \<Rightarrow> real" where
  "block_power iq = sum_list (map (\<lambda>z. Re (z * cnj z)) iq)"

subsection \<open>The sample source\<close>

text \<open>
  The rtl-sdr handle of pyrtlsdr is external to the module. It is modelled as one device
  whose state holds the tuner settings, the level of each GPIO pin, the sample stream
  with a read cursor, whether the device is open, and the list of the calls that were
  carried out on it, oldest first. Any call except \<^verbatim>\<open>close\<close> may raise:
  \<open>fails d n\<close> says that the \<open>n\<close>-th call attempted on the device raises,
  and a call that raises changes nothing but the count of attempts. \<^verbatim>\<open>RtlSdr()\<close>
  opens the device. \<^verbatim>\<open>close\<close> does not raise and leaves the device closed; a
  second \<^verbatim>\<open>close\<close> is one more call in the list and the device stays closed.
\<close>

datatype event =
    EOpen
  | ESetRs real
  | ESetFc real
  | ESetGain real
  | EGpioOutput nat
  | EGpioBit nat nat
  | ERead nat
  | EReadAsync nat
  | EClose

record device =
  sdr_rs :: real
  sdr_fc :: real
  sdr_gain :: real
  gpio :: "nat \<Rightarrow> nat"
  calls :: "event list"
  ticks :: nat
  fails :: "nat \<Rightarrow> bool"
  samples :: "nat \<Rightarrow> complex"
  cursor :: nat
  is_open :: bool

definition hw_call :: "event \<Rightarrow> (device \<Rightarrow> device) \<Rightarrow> device \<Rightarrow> (error + unit) \<times> device" where
  "hw_call e upd d =
     (if fails d (ticks d) then (Inl HardwareError, d\<lparr>ticks := Suc (ticks d)\<rparr>)
      else (Inr (), upd (d\<lparr>ticks := Suc (ticks d), calls := calls d @ [e]\<rparr>)))"

text \<open>Sequencing of steps that may raise: the first error ends the sequence.\<close>

definition thn :: "('e + 'a) \<times> 's \<Rightarrow> ('a \<Rightarrow> 's \<Rightarrow> ('e + 'b) \<times> 's) \<Rightarrow> ('e + 'b) \<times> 's" where
  "thn m f = (case m of (Inl e, s) \<Rightarrow> (Inl e, s) | (Inr x, s) \<Rightarrow> f x s)"

definition RtlSdr :: "device \<Rightarrow> (error + unit) \<times> device" where
  "RtlSdr d = hw_call EOpen (\<lambda>x. x\<lparr>is_open := True\<rparr>) d"

definition set_rs :: "real \<Rightarrow> device \<Rightarrow> (error + unit) \<times> device" where
  "set_rs r d = hw_call (ESetRs r) (\<lambda>x. x\<lparr>sdr_rs := r\<rparr>) d"

definition set_fc :: "real \<Rightarrow> device \<Rightarrow> (error + unit) \<times> device" where
  "set_fc f d = hw_call (ESetFc f) (\<lambda>x. x\<lparr>sdr_fc := f\<rparr>) d"

definition set_gain :: "real \<Rightarrow> device \<Rightarrow> (error + unit) \<times> device" where
  "set_gain g d = hw_call (ESetGain g) (\<lambda>x. x\<lparr>sdr_gain := g\<rparr>) d"

definition set_gpio_output :: "nat \<Rightarrow> device \<Rightarrow> (error + unit) \<times> device" where
  "set_gpio_output n d = hw_call (EGpioOutput n) (\<lambda>x. x) d"

definition set_gpio_bit :: "nat \<Rightarrow> nat \<Rightarrow> device \<Rightarrow> (error + unit) \<times> device" where
  "set_gpio_bit n v d = hw_call (EGpioBit n v) (\<lambda>x. x\<lparr>gpio := (gpio x)(n := v)\<rparr>) d"

definition read_samples :: "nat \<Rightarrow> device \<Rightarrow> (error + complex list) \<times> device" where
  "read_samples n d =
     (case hw_call (ERead n) (\<lambda>x. x\<lparr>cursor := cursor x + n\<rparr>) d of
        (Inl e, d') \<Rightarrow> (Inl e, d')
      | (Inr u, d') \<Rightarrow> (Inr (map (samples d) [cursor d ..< cursor d + n]), d'))"

definition close :: "device \<Rightarrow> device" where
  "close d = d\<lparr>calls := calls d @ [EClose], is_open := False\<rparr>"

text \<open>
  Modelled from the spec: the bounded callback stream of the Sample Source
  (\<^verbatim>\<open>RtlSdr.read_samples_async\<close> with a callback wrapped by
  \<^verbatim>\<open>rtlsdr.helpers.limit_calls\<close>; both belong to pyrtlsdr and are not in the
  repository). The spec: the callback is "invoked once per delivered block up to a fixed
  call budget", one invocation at a time, in order of arrival, and the driver blocks
  until the budget is exhausted. The budget the driver passes is a float; the stream
  delivers the whole number of blocks that fit in it.
\<close>

fun stream_blocks ::
  "nat \<Rightarrow> (complex list \<Rightarrow> 'g \<Rightarrow> 'g) \<Rightarrow> nat \<Rightarrow> 'g \<Rightarrow> device \<Rightarrow> (error + 'g) \<times> device" where
  "stream_blocks 0 callback num_samples g d = (Inr g, d)"
| "stream_blocks (Suc k) callback num_samples g d =
     (case read_samples num_samples d of
        (Inl e, d') \<Rightarrow> (Inl e, d')
      | (Inr iq, d') \<Rightarrow> stream_blocks k callback num_samples (callback iq g) d')"

definition read_samples_async ::
  "real \<Rightarrow> (complex list \<Rightarrow> 'g \<Rightarrow> 'g) \<Rightarrow> nat \<Rightarrow> 'g \<Rightarrow> device \<Rightarrow> (error + 'g) \<times> device" where
  "read_samples_async max_calls callback num_samples g d =
     (case hw_call (EReadAsync num_samples) (\<lambda>x. x) d of
        (Inl e, d') \<Rightarrow> (Inl e, d')
      | (Inr u, d') \<Rightarrow> stream_blocks (nat \<lfloor>max_calls\<rfloor>) callback num_samples g d')"

text \<open>\<^verbatim>\<open>get_sdr\<close>: open the device, then set rate, centre frequency and gain.\<close>

definition get_sdr :: "real \<Rightarrow> real \<Rightarrow> real \<Rightarrow> device \<Rightarrow> (error + unit) \<times> device" where
  "get_sdr rate fc gain hw =
     thn (RtlSdr hw) (\<lambda>u d.
     thn (set_rs rate d) (\<lambda>u d.
     thn (set_fc fc d) (\<lambda>u d.
     set_gain gain d)))"

text \<open>
  The \<^verbatim>\<open>finally\<close> clause of every driver:
  \<^verbatim>\<open>if sdr is not None and close_sdr: sdr.close()\<close>. It runs after the body of the
  \<^verbatim>\<open>try\<close>, whether the body returned or raised.
\<close>

definition finally_close :: "bool \<Rightarrow> (error + 'a) \<times> device \<Rightarrow> (error + 'a) \<times> device" where
  "finally_close close_sdr m = (case m of (r, d) \<Rightarrow> (r, if close_sdr then close d else d))"

text \<open>
  What is external to the module besides the device: scipy's \<^verbatim>\<open>welch\<close> (called with
  the block, \<^verbatim>\<open>fs\<close>, \<^verbatim>\<open>nperseg\<close> and \<^verbatim>\<open>nfft\<close>; the other arguments are
  constants), scipy's \<^verbatim>\<open>get_window('hann', nperseg)\<close>, the clock read at the start
  of the \<open>i\<close>-th pass of the Dicke loop, and whether \<^verbatim>\<open>np.save\<close> succeeds.
\<close>

record env =
  welch :: "complex list \<Rightarrow> real \<Rightarrow> nat \<Rightarrow> nat \<Rightarrow> real list \<times> real list"
  get_window :: "nat \<Rightarrow> real list"
  clock :: "nat \<Rightarrow> real"
  save_ok :: bool

subsection \<open>run_total_power_int\<close>

text \<open>
  The globals \<^verbatim>\<open>p_tot\<close> and \<^verbatim>\<open>cnt\<close> are the pair that the callback updates.
\<close>

definition p_tot_callback :: "complex list \<Rightarrow> real \<times> nat \<Rightarrow> real \<times> nat" where
  "p_tot_callback iq g =
     (case g of (p_tot, cnt) \<Rightarrow> (p_tot + block_power (dc_compensate iq), cnt + 1))"

text \<open>
  The body of the \<^verbatim>\<open>try\<close> after the handle is bound. \<^verbatim>\<open>N / num_samp\<close> is
  evaluated for the log line and again for the call budget. After the stream has ended,
  the argument \<^verbatim>\<open>(num_samp * cnt) / rate\<close> of the last log line is evaluated
  whatever the log level, and raises for the requested rate zero. With no callback made,
  \<^verbatim>\<open>p_tot\<close> is still the Python float \<^verbatim>\<open>0.0\<close> and the division by
  \<^verbatim>\<open>num_samp * cnt\<close> raises.
\<close>

definition total_power_body ::
  "nat \<Rightarrow> real \<Rightarrow> real \<Rightarrow> bool \<Rightarrow> device \<Rightarrow> (error + real) \<times> device" where
  "total_power_body num_samp rate t_int close_sdr d =
     (let N = py_int (sdr_rs d * t_int) in
      case py_truediv N (int num_samp) of
        Inl e \<Rightarrow> (Inl e, d)
      | Inr max_calls \<Rightarrow>
          thn (read_samples_async max_calls p_tot_callback num_samp (0, 0) d) (\<lambda>g d1.
            case g of (p_tot, cnt) \<Rightarrow>
              (case py_fdiv (real (num_samp * cnt)) rate of
                 Inl e \<Rightarrow> (Inl e, d1)
               | Inr t_eff \<Rightarrow>
                   if num_samp * cnt = 0 then (Inl ZeroDivisionError, d1)
                   else (Inr (p_tot / real (num_samp * cnt)),
                         if close_sdr then close d1 else d1))))"

definition run_total_power_int ::
  "nat \<Rightarrow> real \<Rightarrow> real \<Rightarrow> real \<Rightarrow> real \<Rightarrow> device option \<Rightarrow> device \<Rightarrow> (error + real) \<times> device" where
  "run_total_power_int num_samp gain rate fc t_int sdr hw =
     (case sdr of
        None \<Rightarrow>
          (case get_sdr rate fc gain hw of
             (Inl e, d) \<Rightarrow> (Inl e, d)
           | (Inr u, d) \<Rightarrow> finally_close True (total_power_body num_samp rate t_int True d))
      | Some h \<Rightarrow> finally_close False (total_power_body num_samp rate t_int False h))"

subsection \<open>dicke\<close>

text \<open>
  The model is the function with \<^verbatim>\<open>plot=False\<close>. The loop keeps the three lists and
  the flag; \<open>i\<close> is the index of the pass.
\<close>

fun dicke_loop ::
  "env \<Rightarrow> nat \<Rightarrow> nat \<Rightarrow> nat \<Rightarrow> nat \<Rightarrow> real list \<times> real list \<times> nat list \<Rightarrow> device
     \<Rightarrow> (error + real list \<times> real list \<times> nat list) \<times> device" where
  "dicke_loop E num_samp 0 i flipflop acc d = (Inr acc, d)"
| "dicke_loop E num_samp (Suc k) i flipflop acc d =
     (case set_gpio_bit 4 (if flipflop \<noteq> 0 then 1 else 0) d of
        (Inl e, d1) \<Rightarrow> (Inl e, d1)
      | (Inr u, d1) \<Rightarrow>
          (case read_samples num_samp d1 of
             (Inl e, d2) \<Rightarrow> (Inl e, d2)
           | (Inr iq, d2) \<Rightarrow>
               (case acc of (ts, ps, noise_on) \<Rightarrow>
                  dicke_loop E num_samp k (Suc i) (1 - flipflop)
                    (ts @ [clock E i], ps @ [block_power (dc_compensate iq)],
                     noise_on @ [flipflop]) d2)))"

text \<open>
  \<^verbatim>\<open>np.save\<close> names the file after \<^verbatim>\<open>time_str\<close>, which is bound in the loop only:
  with no pass made the name is unbound.
\<close>

definition np_save :: "env \<Rightarrow> nat \<Rightarrow> device \<Rightarrow> (error + unit) \<times> device" where
  "np_save E passes d =
     (if passes = 0 then (Inl UnboundLocalError, d)
      else if save_ok E then (Inr (), d) else (Inl OSError, d))"

definition dicke_body ::
  "env \<Rightarrow> nat \<Rightarrow> real \<Rightarrow> real \<Rightarrow> real \<Rightarrow> real \<Rightarrow> bool \<Rightarrow> device
     \<Rightarrow> (error + real list \<times> real list \<times> nat list) \<times> device" where
  "dicke_body E num_samp gain rate fc t close_sdr d0 =
     thn (set_rs rate d0) (\<lambda>u d.
     thn (set_fc fc d) (\<lambda>u d.
     thn (set_gain gain d) (\<lambda>u d.
       let N = py_int (sdr_rs d * t) in
       case py_truediv N (int num_samp) of
         Inl e \<Rightarrow> (Inl e, d)
       | Inr q \<Rightarrow>
           thn (set_gpio_output 4 d) (\<lambda>u d.
           case py_floordiv N (int num_samp) of
             Inl e \<Rightarrow> (Inl e, d)
           | Inr passes \<Rightarrow>
               thn (dicke_loop E num_samp (nat passes) 0 1 ([], [], []) d) (\<lambda>res d.
               thn (np_save E (nat passes) d) (\<lambda>u d.
                 if close_sdr then
                   thn (set_gpio_bit 4 0 d) (\<lambda>u d. (Inr res, close d))
                 else (Inr res, d)))))))"

definition dicke ::
  "env \<Rightarrow> nat \<Rightarrow> real \<Rightarrow> real \<Rightarrow> real \<Rightarrow> real \<Rightarrow> device option \<Rightarrow> device
     \<Rightarrow> (error + real list \<times> real list \<times> nat list) \<times> device" where
  "dicke E num_samp gain rate fc t sdr hw =
     (case sdr of
        None \<Rightarrow>
          (case get_sdr rate fc gain hw of
             (Inl e, d) \<Rightarrow> (Inl e, d)
           | (Inr u, d) \<Rightarrow> finally_close True (dicke_body E num_samp gain rate fc t True d))
      | Some h \<Rightarrow> finally_close False (dicke_body E num_samp gain rate fc t False h))"

subsection \<open>Spectra: accumulation, centring and scaling\<close>

text \<open>
  \<^verbatim>\<open>acc += p_xx\<close> on numpy arrays: elementwise on equal shapes, a one-element
  right-hand side is broadcast, any other shape raises.
\<close>

definition np_iadd :: "real list \<Rightarrow> real list \<Rightarrow> error + real list" where
  "np_iadd acc p_xx =
     (if length p_xx = length acc then Inr (map2 (+) acc p_xx)
      else if length p_xx = 1 then Inr (map (\<lambda>a. a + hd p_xx) acc)
      else Inl ValueError)"

text \<open>
  \<^verbatim>\<open>acc /= cnt\<close> on a numpy array: elementwise float division, which does not raise
  on a zero count.
\<close>

definition np_idiv :: "real list \<Rightarrow> nat \<Rightarrow> npfloat list" where
  "np_idiv acc cnt = map (\<lambda>a. np_div (Num a) (Num (real cnt))) acc"

text \<open>\<^verbatim>\<open>np.roll(x, shift)\<close> and \<^verbatim>\<open>np.fft.fftshift(x)\<close>, which rolls by \<^verbatim>\<open>len(x) // 2\<close>.\<close>

definition np_roll :: "'a list \<Rightarrow> nat \<Rightarrow> 'a list" where
  "np_roll xs shift =
     (if xs = [] then []
      else drop (length xs - shift mod length xs) xs @ take (length xs - shift mod length xs) xs)"

definition fftshift :: "'a list \<Rightarrow> 'a list" where
  "fftshift xs = np_roll xs (length xs div 2)"

text \<open>
  \<^verbatim>\<open>p_xx_tot * ((win.sum()**2) / (win*win).sum()) / rate\<close>: the quotient of the two
  window sums is a numpy scalar division.
\<close>

definition window_correction :: "real list \<Rightarrow> npfloat" where
  "window_correction win = np_div (Num ((sum_list win)\<^sup>2)) (Num (sum_list (map (\<lambda>w. w * w) win)))"

definition psd_scale :: "npfloat list \<Rightarrow> real list \<Rightarrow> real \<Rightarrow> npfloat list" where
  "psd_scale p win rate = map (\<lambda>x. np_div (np_mul x (window_correction win)) (Num rate)) p"

subsection \<open>run_spectrum_int\<close>

text \<open>
  The loop over the blocks, and the body of the \<^verbatim>\<open>try\<close> after the handle is
  bound. After the loop and the averaging, the argument \<^verbatim>\<open>num_samp * cnt / rate\<close>
  of the last log line is evaluated whatever the log level, and raises for the rate zero.
\<close>

fun spectrum_loop ::
  "env \<Rightarrow> nat \<Rightarrow> nat \<Rightarrow> real \<Rightarrow> nat \<Rightarrow> nat \<Rightarrow> real list \<times> real list \<times> nat \<Rightarrow> device
     \<Rightarrow> (error + real list \<times> real list \<times> nat) \<times> device" where
  "spectrum_loop E num_samp nbins rate nperseg 0 acc d = (Inr acc, d)"
| "spectrum_loop E num_samp nbins rate nperseg (Suc k) acc d =
     (case read_samples num_samp d of
        (Inl e, d1) \<Rightarrow> (Inl e, d1)
      | (Inr iq, d1) \<Rightarrow>
          (case acc of (freqs, p_xx_tot, cnt) \<Rightarrow>
             (case welch E (dc_compensate iq) rate nperseg nbins of (freqs', p_xx) \<Rightarrow>
                (case np_iadd p_xx_tot p_xx of
                   Inl e \<Rightarrow> (Inl e, d1)
                 | Inr p_xx_tot' \<Rightarrow>
                     spectrum_loop E num_samp nbins rate nperseg k (freqs', p_xx_tot', cnt + 1) d1))))"

definition spectrum_body ::
  "env \<Rightarrow> nat \<Rightarrow> nat \<Rightarrow> real \<Rightarrow> real \<Rightarrow> real \<Rightarrow> real \<Rightarrow> bool \<Rightarrow> device
     \<Rightarrow> (error + real list \<times> npfloat list) \<times> device" where
  "spectrum_body E num_samp nbins gain rate fc t_int close_sdr d0 =
     (let nperseg = (if nbins < 256 then nbins else 256) in
      thn (set_rs rate d0) (\<lambda>u d.
      thn (set_fc fc d) (\<lambda>u d.
      thn (set_gain gain d) (\<lambda>u d.
        let N = py_int (sdr_rs d * t_int) in
        case py_truediv N (int num_samp) of
          Inl e \<Rightarrow> (Inl e, d)
        | Inr q \<Rightarrow>
            let num_loops = py_int q + 1 in
            thn (spectrum_loop E num_samp nbins rate nperseg (nat num_loops)
                   (replicate nbins 0, replicate nbins 0, 0) d) (\<lambda>acc d.
              case acc of (freqs, p_xx_tot, cnt) \<Rightarrow>
                let p_avg = np_idiv p_xx_tot cnt in
                case py_fdiv (real (num_samp * cnt)) rate of
                  Inl e \<Rightarrow> (Inl e, d)
                | Inr t_eff \<Rightarrow>
                    let freqs1 = fftshift freqs;
                        p_avg1 = fftshift p_avg;
                        freqs2 = map (\<lambda>f. f + fc) freqs1;
                        win = get_window E nperseg;
                        p_avg_hz = psd_scale p_avg1 win rate
                    in (Inr (freqs2, p_avg_hz), if close_sdr then close d else d))))))"

definition run_spectrum_int ::
  "env \<Rightarrow> nat \<Rightarrow> nat \<Rightarrow> real \<Rightarrow> real \<Rightarrow> real \<Rightarrow> real \<Rightarrow> device option \<Rightarrow> device
     \<Rightarrow> (error + real list \<times> npfloat list) \<times> device" where
  "run_spectrum_int E num_samp nbins gain rate fc t_int sdr hw =
     (case sdr of
        None \<Rightarrow>
          (case get_sdr rate fc gain hw of
             (Inl e, d) \<Rightarrow> (Inl e, d)
           | (Inr u, d) \<Rightarrow>
               finally_close True (spectrum_body E num_samp nbins gain rate fc t_int True d))
      | Some h \<Rightarrow> finally_close False (spectrum_body E num_samp nbins gain rate fc t_int False h))"

subsection \<open>run_fswitch_int\<close>

record fsw_acc =
  freqs_on :: "real list"
  freqs_off :: "real list"
  p_xx_on :: "real list"
  p_xx_off :: "real list"
  cntOn :: nat
  cntOff :: nat

text \<open>The inner loop: \<^verbatim>\<open>num_loops\<close> blocks on the frequency of the current dwell.\<close>

fun fswitch_blocks ::
  "env \<Rightarrow> nat \<Rightarrow> nat \<Rightarrow> real \<Rightarrow> nat \<Rightarrow> bool \<Rightarrow> nat \<Rightarrow> fsw_acc \<Rightarrow> device
     \<Rightarrow> (error + fsw_acc) \<times> device" where
  "fswitch_blocks E num_samp nbins rate nperseg tick 0 acc d = (Inr acc, d)"
| "fswitch_blocks E num_samp nbins rate nperseg tick (Suc k) acc d =
     (case read_samples num_samp d of
        (Inl e, d1) \<Rightarrow> (Inl e, d1)
      | (Inr iq, d1) \<Rightarrow>
          (case welch E (dc_compensate iq) rate nperseg nbins of (freqs', p_xx) \<Rightarrow>
             if tick then
               (case np_iadd (p_xx_on acc) p_xx of
                  Inl e \<Rightarrow> (Inl e, d1)
                | Inr p' \<Rightarrow>
                    fswitch_blocks E num_samp nbins rate nperseg tick k
                      (acc\<lparr>freqs_on := freqs', p_xx_on := p', cntOn := cntOn acc + 1\<rparr>) d1)
             else
               (case np_iadd (p_xx_off acc) p_xx of
                  Inl e \<Rightarrow> (Inl e, d1)
                | Inr p' \<Rightarrow>
                    fswitch_blocks E num_samp nbins rate nperseg tick k
                      (acc\<lparr>freqs_off := freqs', p_xx_off := p', cntOff := cntOff acc + 1\<rparr>) d1)))"

text \<open>The outer loop: \<open>i\<close> is the index of the dwell, \<open>k\<close> the dwells still to do.\<close>

fun fswitch_dwells ::
  "env \<Rightarrow> nat \<Rightarrow> nat \<Rightarrow> real \<Rightarrow> nat \<Rightarrow> real \<Rightarrow> real \<Rightarrow> nat \<Rightarrow> nat \<Rightarrow> nat \<Rightarrow> fsw_acc \<Rightarrow> device
     \<Rightarrow> (error + fsw_acc) \<times> device" where
  "fswitch_dwells E num_samp nbins rate nperseg fc fthrow num_loops 0 i acc d = (Inr acc, d)"
| "fswitch_dwells E num_samp nbins rate nperseg fc fthrow num_loops (Suc k) i acc d =
     (let tick = (i mod 2 = 0) in
      case set_fc (if tick then fc else fthrow) d of
        (Inl e, d1) \<Rightarrow> (Inl e, d1)
      | (Inr u, d1) \<Rightarrow>
          (case fswitch_blocks E num_samp nbins rate nperseg tick num_loops acc d1 of
             (Inl e, d2) \<Rightarrow> (Inl e, d2)
           | (Inr acc', d2) \<Rightarrow>
               fswitch_dwells E num_samp nbins rate nperseg fc fthrow num_loops k (Suc i) acc' d2))"

text \<open>
  The body of the \<^verbatim>\<open>try\<close> after the handle is bound. After the dwells and the
  two averagings, the argument \<^verbatim>\<open>num_samp * (cntOn + cntOff) / rate\<close> of the last
  log line is evaluated whatever the log level.
\<close>

definition fswitch_body ::
  "env \<Rightarrow> nat \<Rightarrow> nat \<Rightarrow> real \<Rightarrow> real \<Rightarrow> real \<Rightarrow> real \<Rightarrow> real \<Rightarrow> real \<Rightarrow> bool \<Rightarrow> device
     \<Rightarrow> (error + (real list \<times> npfloat list \<times> real list \<times> npfloat list)) \<times> device" where
  "fswitch_body E num_samp nbins gain rate fc fthrow t_int fswitch close_sdr d0 =
     (let nperseg = (if nbins < 256 then nbins else 256) in
      thn (set_rs rate d0) (\<lambda>u d.
      thn (set_fc fc d) (\<lambda>u d.
      thn (set_gain gain d) (\<lambda>u d.
        let N = py_int (sdr_rs d * t_int);
            N_dwell = py_int (sdr_rs d * (1 / fswitch)) in
        case py_floordiv N_dwell (int num_samp) of
          Inl e \<Rightarrow> (Inl e, d)
        | Inr num_loops \<Rightarrow>
           (case py_floordiv N N_dwell of
              Inl e \<Rightarrow> (Inl e, d)
            | Inr num_dwells \<Rightarrow>
                thn (fswitch_dwells E num_samp nbins rate nperseg fc fthrow
                       (nat num_loops) (nat num_dwells) 0
                       \<lparr>freqs_on = replicate nbins 0, freqs_off = replicate nbins 0,
                        p_xx_on = replicate nbins 0, p_xx_off = replicate nbins 0,
                        cntOn = 0, cntOff = 0\<rparr> d) (\<lambda>acc d.
                  let p_on = np_idiv (p_xx_on acc) (cntOn acc);
                      p_off = np_idiv (p_xx_off acc) (cntOff acc) in
                  case py_fdiv (real (num_samp * (cntOn acc + cntOff acc))) rate of
                    Inl e \<Rightarrow> (Inl e, d)
                  | Inr t_eff \<Rightarrow>
                      let f_on = fftshift (freqs_on acc);
                          f_off = fftshift (freqs_off acc);
                          p_on1 = fftshift p_on;
                          p_off1 = fftshift p_off;
                          f_on1 = map (\<lambda>f. f + fc) f_on;
                          f_off1 = map (\<lambda>f. f + fthrow) f_off;
                          win = get_window E nperseg;
                          p_avg_on_hz = psd_scale p_on1 win rate;
                          p_avg_off_hz = psd_scale p_off1 win rate
                      in (Inr (f_on1, p_avg_on_hz, f_off1, p_avg_off_hz),
                          if close_sdr then close d else d)))))))"

text \<open>
  The assertion on \<^verbatim>\<open>t_int\<close> precedes the \<^verbatim>\<open>try\<close>: when it fails, or when
  \<^verbatim>\<open>1.0/fswitch\<close> raises in it, nothing has touched the device. The warning logged
  for \<^verbatim>\<open>fswitch > 10\<close> has no effect on the result.
\<close>

definition run_fswitch_int ::
  "env \<Rightarrow> nat \<Rightarrow> nat \<Rightarrow> real \<Rightarrow> real \<Rightarrow> real \<Rightarrow> real \<Rightarrow> real \<Rightarrow> real \<Rightarrow> device option \<Rightarrow> device
     \<Rightarrow> (error + (real list \<times> npfloat list \<times> real list \<times> npfloat list)) \<times> device" where
  "run_fswitch_int E num_samp nbins gain rate fc fthrow t_int fswitch sdr hw =
     (if fswitch = 0 then (Inl ZeroDivisionError, case sdr of None \<Rightarrow> hw | Some h \<Rightarrow> h)
      else if \<not> (t_int \<ge> 2 * (1 / fswitch)) then
        (Inl AssertionError, case sdr of None \<Rightarrow> hw | Some h \<Rightarrow> h)
      else
        (case sdr of
           None \<Rightarrow>
             (case get_sdr rate fc gain hw of
                (Inl e, d) \<Rightarrow> (Inl e, d)
              | (Inr u, d) \<Rightarrow>
                  finally_close True
                    (fswitch_body E num_samp nbins gain rate fc fthrow t_int fswitch True d))
         | Some h \<Rightarrow>
             finally_close False
               (fswitch_body E num_samp nbins gain rate fc fthrow t_int fswitch False h)))"

subsection \<open>Vocabulary of the properties\<close>

text \<open>The device a call works on: the caller's handle, or the hardware the driver opens.\<close>

definition device_of :: "device option \<Rightarrow> device \<Rightarrow> device" where
  "device_of sdr hw = (case sdr of None \<Rightarrow> hw | Some h \<Rightarrow> h)"

text \<open>Whether a call returned a value rather than raised.\<close>

definition returned :: "'e + 'a \<Rightarrow> bool" where
  "returned r = (case r of Inl e \<Rightarrow> False | Inr v \<Rightarrow> True)"

text \<open>The calls made between an earlier and a later state of the device.\<close>

definition new_calls :: "device \<Rightarrow> device \<Rightarrow> event list" where
  "new_calls d d' = drop (length (calls d)) (calls d')"

text \<open>The number of blocks of \<open>n\<close> samples acquired in a list of calls.\<close>

definition blocks_read :: "nat \<Rightarrow> event list \<Rightarrow> nat" where
  "blocks_read n tr = length (filter (\<lambda>e. e = ERead n) tr)"

text \<open>The \<open>j\<close>-th block of \<open>n\<close> samples that the device delivers from its cursor on.\<close>

definition nth_block :: "device \<Rightarrow> nat \<Rightarrow> nat \<Rightarrow> complex list" where
  "nth_block d n j = map (samples d) [cursor d + j * n ..< cursor d + j * n + n]"

text \<open>
  The frequency axis and the periodogram that welch returns for the \<open>j\<close>-th block
  after DC compensation, and the per-bin sum of the first \<open>cnt\<close> periodograms.
\<close>

definition pgram :: "env \<Rightarrow> device \<Rightarrow> nat \<Rightarrow> real \<Rightarrow> nat \<Rightarrow> nat \<Rightarrow> nat \<Rightarrow> real list \<times> real list" where
  "pgram E d num_samp rate nperseg nbins j =
     welch E (dc_compensate (nth_block d num_samp j)) rate nperseg nbins"

definition spectrum_sum :: "env \<Rightarrow> device \<Rightarrow> nat \<Rightarrow> real \<Rightarrow> nat \<Rightarrow> nat \<Rightarrow> nat \<Rightarrow> real" where
  "spectrum_sum E d num_samp rate nbins cnt b =
     (\<Sum>j<cnt. snd (pgram E d num_samp rate (if nbins < 256 then nbins else 256) nbins j) ! b)"

text \<open>
  The power spectral density of one bin: the bin's sum \<open>s\<close> over \<open>cnt\<close>
  periodograms, averaged and multiplied by the one factor
  \<open>((\<Sum>w)\<^sup>2 / \<Sum>(w\<^sup>2)) / rate\<close>.
\<close>

definition psd_value :: "real \<Rightarrow> nat \<Rightarrow> real list \<Rightarrow> real \<Rightarrow> real" where
  "psd_value s cnt win rate =
     s / real cnt * (((sum_list win)\<^sup>2 / sum_list (map (\<lambda>w. w * w) win)) / rate)"

text \<open>A device without faults and an environment, for concrete runs.\<close>

definition example_hw :: device where
  "example_hw = \<lparr>sdr_rs = 0, sdr_fc = 0, sdr_gain = 0, gpio = (\<lambda>n. 0), calls = [], ticks = 0,
                  fails = (\<lambda>n. False), samples = (\<lambda>n. Complex (real n) 1), cursor = 0,
                  is_open = False\<rparr>"

definition example_env :: env where
  "example_env = \<lparr>welch = (\<lambda>iq fs nperseg nfft. (map real [0..<nfft], replicate nfft (block_power iq))),
                   get_window = (\<lambda>n. replicate n 1), clock = real, save_ok = True\<rparr>"

text \<open>
  The sample rate that the total-power driver reads from the handle: the requested
  rate on a device that the driver opened, the handle's own setting on a handle that the
  caller supplied (that driver does not set the rate of a supplied handle).
\<close>

definition rate_used :: "device option \<Rightarrow> real \<Rightarrow> real" where
  "rate_used sdr rate = (case sdr of None \<Rightarrow> rate | Some h \<Rightarrow> sdr_rs h)"

text \<open>
  \<open>floor(N / num_samp)\<close> for \<open>N = floor(rate * t_int)\<close>.
\<close>

definition planned_blocks :: "real \<Rightarrow> real \<Rightarrow> nat \<Rightarrow> nat" where
  "planned_blocks rate t_int num_samp = nat (\<lfloor>rate * t_int\<rfloor> div int num_samp)"

text \<open>
  The dwell schedule of the frequency-switched driver in the words of the
  specification: \<open>N = floor(rate * t_int)\<close> samples in all, \<open>N_dwell = floor(rate / fswitch)\<close>
  samples per dwell, \<open>floor(N_dwell / num_samp)\<close> blocks per dwell and
  \<open>floor(N / N_dwell)\<close> dwells.
\<close>

definition blocks_per_dwell :: "real \<Rightarrow> real \<Rightarrow> nat \<Rightarrow> nat" where
  "blocks_per_dwell rate fswitch num_samp = nat (\<lfloor>rate / fswitch\<rfloor> div int num_samp)"

definition num_dwells :: "real \<Rightarrow> real \<Rightarrow> real \<Rightarrow> nat" where
  "num_dwells rate t_int fswitch = nat (\<lfloor>rate * t_int\<rfloor> div \<lfloor>rate / fswitch\<rfloor>)"

text \<open>
  For a schedule of \<open>D\<close> dwells of \<open>L\<close> blocks, the dwells with an even
  index being the primary ones: the number of blocks of one switch state, and the sum
  over these blocks of bin \<open>b\<close> of their periodograms (dwell \<open>q\<close> holds the
  blocks \<open>q * L, \<dots>, q * L + L - 1\<close>).
\<close>

definition switch_count :: "bool \<Rightarrow> nat \<Rightarrow> nat \<Rightarrow> nat" where
  "switch_count primary L D = (\<Sum>q<D. if even q = primary then L else 0)"

definition switch_sum :: "bool \<Rightarrow> env \<Rightarrow> device \<Rightarrow> nat \<Rightarrow> real \<Rightarrow> nat \<Rightarrow> nat \<Rightarrow> nat \<Rightarrow> nat \<Rightarrow> real" where
  "switch_sum primary E d num_samp rate nbins L D b =
     (\<Sum>q<D. if even q = primary
            then (\<Sum>j<L. snd (pgram E d num_samp rate (if nbins < 256 then nbins else 256) nbins
                               (q * L + j)) ! b)
            else 0)"

text \<open>
  The device calls of such a schedule: each dwell tunes to its frequency and reads its
  blocks.
\<close>

definition dwell_calls :: "real \<Rightarrow> real \<Rightarrow> nat \<Rightarrow> nat \<Rightarrow> nat \<Rightarrow> event list" where
  "dwell_calls fc fthrow num_samp L D =
     concat (map (\<lambda>q. ESetFc (if even q then fc else fthrow) # replicate L (ERead num_samp)) [0..<D])"







subsection \<open>Auxiliary facts\<close>

lemma hw_call_err: "hw_call ev upd d = (Inl e, d') \<Longrightarrow> e = HardwareError"
  by (auto simp: hw_call_def split: if_splits)

lemma read_samples_err: "read_samples n d = (Inl e, d') \<Longrightarrow> e = HardwareError"
  by (auto simp: read_samples_def split: prod.splits sum.splits dest: hw_call_err)

lemma np_iadd_err: "np_iadd a p = Inl e \<Longrightarrow> e = ValueError"
  by (auto simp: np_iadd_def split: if_splits)

lemma fswitch_blocks_err:
  "fswitch_blocks E num_samp nbins rate nperseg tick k acc d = (Inl e, d') \<Longrightarrow> e \<noteq> AssertionError"
proof (induction k arbitrary: acc d)
  case 0 then show ?case by simp
next
  case (Suc k)
  then show ?case
    by (auto split: prod.splits sum.splits if_splits dest: read_samples_err np_iadd_err)
qed

lemma fswitch_dwells_err:
  "fswitch_dwells E num_samp nbins rate nperseg fc fthrow L k i acc d = (Inl e, d') \<Longrightarrow> e \<noteq> AssertionError"
proof (induction k arbitrary: i acc d)
  case 0 then show ?case by simp
next
  case (Suc k)
  then show ?case
    by (auto simp: set_fc_def Let_def split: prod.splits sum.splits if_splits dest: hw_call_err fswitch_blocks_err)
qed

lemma get_sdr_err: "get_sdr rate fc gain hw = (Inl e, d') \<Longrightarrow> e = HardwareError"
  by (auto simp: get_sdr_def thn_def RtlSdr_def set_rs_def set_fc_def set_gain_def
      split: prod.splits sum.splits dest: hw_call_err)

lemma py_floordiv_err: "py_floordiv a b = Inl e \<Longrightarrow> e = ZeroDivisionError"
  by (auto simp: py_floordiv_def split: if_splits)

lemma py_fdiv_err: "py_fdiv a b = Inl e \<Longrightarrow> e = ZeroDivisionError"
  by (auto simp: py_fdiv_def split: if_splits)

lemma py_fdiv_ok: "b \<noteq> 0 \<Longrightarrow> py_fdiv a b = Inr (a / b)"
  by (simp add: py_fdiv_def)

lemma fswitch_body_err:
  "fswitch_body E num_samp nbins gain rate fc fthrow t_int fswitch cl d = (Inl e, d') \<Longrightarrow> e \<noteq> AssertionError"
  by (auto simp: fswitch_body_def thn_def set_rs_def set_fc_def set_gain_def Let_def
      split: prod.splits sum.splits dest: hw_call_err fswitch_dwells_err py_floordiv_err py_fdiv_err)

lemma fst_finally_close: "fst (finally_close c m) = fst m"
  by (simp add: finally_close_def split: prod.splits)

lemma fswitch_body_no_assert:
  "fst (fswitch_body E num_samp nbins gain rate fc fthrow t_int fswitch cl d) \<noteq> Inl AssertionError"
  using fswitch_body_err [of E num_samp nbins gain rate fc fthrow t_int fswitch cl d]
  by (cases "fswitch_body E num_samp nbins gain rate fc fthrow t_int fswitch cl d") auto

lemma get_sdr_no_assert: "fst (get_sdr rate fc gain hw) \<noteq> Inl AssertionError"
  using get_sdr_err [of rate fc gain hw]
  by (cases "get_sdr rate fc gain hw") auto

lemma np_save_dev: "np_save E k d = (r, d') \<Longrightarrow> d' = d"
  by (auto simp: np_save_def split: if_splits)

lemma returned_iff: "returned r = (\<exists>v. r = Inr v)"
  by (cases r) (simp_all add: returned_def)

lemma read_samples_ok:
  "\<forall>n. \<not> fails d n \<Longrightarrow>
     read_samples n d = (Inr (nth_block d n 0),
        d\<lparr>ticks := Suc (ticks d), calls := calls d @ [ERead n], cursor := cursor d + n\<rparr>)"
  by (simp add: read_samples_def hw_call_def nth_block_def)

lemma stream_blocks_ok:
  "\<forall>n. \<not> fails d n \<Longrightarrow>
     stream_blocks k p_tot_callback n (p, c) d =
       (Inr (p + (\<Sum>j<k. block_power (dc_compensate (nth_block d n j))), c + k),
        d\<lparr>ticks := ticks d + k, calls := calls d @ replicate k (ERead n),
          cursor := cursor d + k * n\<rparr>)"
proof (induction k arbitrary: p c d)
  case 0
  then show ?case by simp
next
  case (Suc k)
  let ?d1 = "d\<lparr>ticks := Suc (ticks d), calls := calls d @ [ERead n], cursor := cursor d + n\<rparr>"
  have nf: "\<forall>m. \<not> fails ?d1 m" using Suc.prems by simp
  have blk: "\<And>j. nth_block ?d1 n j = nth_block d n (Suc j)"
    by (simp add: nth_block_def algebra_simps)
  have step: "stream_blocks (Suc k) p_tot_callback n (p, c) d
      = stream_blocks k p_tot_callback n (p + block_power (dc_compensate (nth_block d n 0)), Suc c) ?d1"
    by (simp add: read_samples_ok [OF Suc.prems] p_tot_callback_def)
  show ?case
    unfolding step Suc.IH [OF nf] blk
    by (simp add: sum.lessThan_Suc_shift replicate_append_same add.assoc del: sum.lessThan_Suc)
qed

lemma floor_int_div_nat: "\<lfloor>real_of_int N / real n\<rfloor> = N div int n"
  using floor_divide_of_int_eq [of N "int n", where ?'a = real] by simp

lemma py_int_nonneg: "0 \<le> x \<Longrightarrow> py_int x = \<lfloor>x\<rfloor>"
  by (simp add: py_int_def)

lemma get_sdr_ok:
  "\<forall>n. \<not> fails hw n \<Longrightarrow>
     get_sdr rate fc gain hw =
       (Inr (), hw\<lparr>ticks := ticks hw + 4,
                   calls := calls hw @ [EOpen, ESetRs rate, ESetFc fc, ESetGain gain],
                   is_open := True, sdr_rs := rate, sdr_fc := fc, sdr_gain := gain\<rparr>)"
  by (simp add: get_sdr_def thn_def RtlSdr_def set_rs_def set_fc_def set_gain_def hw_call_def)

lemma total_power_body_ok:
  assumes nf: "\<forall>n. \<not> fails d n" and ns: "0 < num_samp" and nn: "0 \<le> sdr_rs d * t_int"
  shows "total_power_body num_samp rate t_int cl d =
     (let cnt = nat (\<lfloor>sdr_rs d * t_int\<rfloor> div int num_samp);
          d1 = d\<lparr>ticks := ticks d + 1 + cnt,
                 calls := calls d @ EReadAsync num_samp # replicate cnt (ERead num_samp),
                 cursor := cursor d + cnt * num_samp\<rparr>
      in if rate = 0 \<or> cnt = 0 then (Inl ZeroDivisionError, d1)
         else (Inr ((\<Sum>j<cnt. block_power (dc_compensate (nth_block d num_samp j)))
                     / real (num_samp * cnt)),
               if cl then close d1 else d1))"
proof -
  let ?d0 = "d\<lparr>ticks := Suc (ticks d), calls := calls d @ [EReadAsync num_samp]\<rparr>"
  have nf0: "\<forall>n. \<not> fails ?d0 n" using nf by simp
  have blk: "\<And>j. nth_block ?d0 num_samp j = nth_block d num_samp j"
    by (simp add: nth_block_def)
  have async: "read_samples_async b p_tot_callback num_samp (0, 0) d
      = stream_blocks (nat \<lfloor>b\<rfloor>) p_tot_callback num_samp (0, 0) ?d0" for b
    using nf by (simp add: read_samples_async_def hw_call_def)
  show ?thesis
    using ns
    by (simp add: total_power_body_def py_truediv_def py_fdiv_def py_int_nonneg [OF nn] async
        stream_blocks_ok [OF nf0] blk thn_def floor_int_div_nat Let_def)
qed

lemma length_np_roll: "length (np_roll xs s) = length xs"
  by (simp add: np_roll_def)

lemma length_fftshift: "length (fftshift xs) = length xs"
  by (simp add: fftshift_def length_np_roll)

lemma np_roll_rotate: "xs \<noteq> [] \<Longrightarrow> np_roll xs s = rotate (length xs - s mod length xs) xs"
proof -
  assume ne: "xs \<noteq> []"
  let ?n = "length xs"
  let ?m = "?n - s mod ?n"
  have "0 < ?n" using ne by simp
  show ?thesis
  proof (cases "s mod ?n = 0")
    case True
    then show ?thesis by (simp add: np_roll_def ne)
  next
    case False
    then have "?m < ?n" using \<open>0 < ?n\<close> by simp
    then have "?m mod ?n = ?m" by simp
    then show ?thesis
      by (simp add: np_roll_def ne rotate_drop_take)
  qed
qed

lemma np_roll_nth:
  assumes "b < length xs"
  shows "np_roll xs s ! ((b + s) mod length xs) = xs ! b"
proof -
  let ?n = "length xs"
  have ne: "xs \<noteq> []" and pos: "0 < ?n" using assms by auto
  have lt: "(b + s) mod ?n < ?n" using pos by simp
  have "s mod ?n < ?n" using pos by simp
  have "(?n - s mod ?n + (b + s) mod ?n) mod ?n = (?n - s mod ?n + (b + s)) mod ?n"
    by (rule mod_add_right_eq)
  also have "?n - s mod ?n + (b + s) = b + (s - s mod ?n) + ?n"
    using \<open>s mod ?n < ?n\<close> mod_less_eq_dividend [of s ?n] by linarith
  also have "(b + (s - s mod ?n) + ?n) mod ?n = (b + (s - s mod ?n)) mod ?n"
    by simp
  also have "s - s mod ?n = (s div ?n) * ?n"
    by (simp add: minus_mod_eq_div_mult)
  also have "(b + (s div ?n) * ?n) mod ?n = b"
    using assms by simp
  finally have idx: "(?n - s mod ?n + (b + s) mod ?n) mod ?n = b" .
  show ?thesis
    using lt idx by (simp add: np_roll_rotate [OF ne] nth_rotate)
qed

lemma fftshift_nth:
  "b < length xs \<Longrightarrow> fftshift xs ! ((b + length xs div 2) mod length xs) = xs ! b"
  by (simp add: fftshift_def np_roll_nth)

lemma fftshift_map: "fftshift (map f xs) = map f (fftshift xs)"
  by (simp add: fftshift_def np_roll_def drop_map take_map)

lemma fftshift_replicate: "fftshift (replicate n x) = replicate n x"
  by (simp add: fftshift_def np_roll_def replicate_add [symmetric] min_def)

lemma nth_block_shift:
  "samples d' = samples d \<Longrightarrow> cursor d' = cursor d + n \<Longrightarrow> nth_block d' n j = nth_block d n (Suc j)"
  by (simp add: nth_block_def algebra_simps)

lemma nth_block_same:
  "samples d' = samples d \<Longrightarrow> cursor d' = cursor d \<Longrightarrow> nth_block d' n j = nth_block d n j"
  by (simp add: nth_block_def)

lemma np_iadd_ok:
  "length p = length acc \<Longrightarrow> np_iadd acc p = Inr (map (\<lambda>b. acc ! b + p ! b) [0..<length acc])"
  by (auto simp: np_iadd_def intro!: nth_equalityI)

lemma spectrum_loop_ok:
  assumes nf: "\<forall>m. \<not> fails d m"
    and shape: "\<forall>iq. length (snd (welch E iq rate nperseg nbins)) = nbins"
    and len: "length p = nbins"
  shows "spectrum_loop E n nbins rate nperseg k (f, p, c) d =
     (Inr (if k = 0 then f else fst (pgram E d n rate nperseg nbins (k - 1)),
           map (\<lambda>b. p ! b + (\<Sum>j<k. snd (pgram E d n rate nperseg nbins j) ! b)) [0..<nbins],
           c + k),
      d\<lparr>ticks := ticks d + k, calls := calls d @ replicate k (ERead n),
        cursor := cursor d + k * n\<rparr>)"
  using nf len
proof (induction k arbitrary: f p c d)
  case 0
  have "map ((!) p) [0..<length p] = p" by (rule map_nth)
  with 0 show ?case by simp
next
  case (Suc k)
  let ?d1 = "d\<lparr>ticks := Suc (ticks d), calls := calls d @ [ERead n], cursor := cursor d + n\<rparr>"
  let ?w = "pgram E d n rate nperseg nbins 0"
  let ?p1 = "map (\<lambda>b. p ! b + snd ?w ! b) [0..<nbins]"
  have nf1: "\<forall>m. \<not> fails ?d1 m" using Suc.prems by simp
  have len1: "length ?p1 = nbins" by simp
  have lw: "length (snd ?w) = length p"
    using shape Suc.prems by (simp add: pgram_def)
  have blk: "\<And>j. pgram E ?d1 n rate nperseg nbins j = pgram E d n rate nperseg nbins (Suc j)"
    by (simp add: pgram_def nth_block_shift)
  have step: "spectrum_loop E n nbins rate nperseg (Suc k) (f, p, c) d
      = spectrum_loop E n nbins rate nperseg k (fst ?w, ?p1, Suc c) ?d1"
    using np_iadd_ok [OF lw] Suc.prems(2)
    by (auto simp: read_samples_ok [OF Suc.prems(1)] pgram_def split: prod.splits)
  have vec: "map (\<lambda>b. ?p1 ! b + (\<Sum>j<k. snd (pgram E d n rate nperseg nbins (Suc j)) ! b)) [0..<nbins]
      = map (\<lambda>b. p ! b + (\<Sum>j<Suc k. snd (pgram E d n rate nperseg nbins j) ! b)) [0..<nbins]"
    by (rule map_cong) (simp_all add: sum.lessThan_Suc_shift del: sum.lessThan_Suc)
  have fr: "(if k = 0 then fst ?w else fst (pgram E d n rate nperseg nbins (Suc (k - 1))))
      = fst (pgram E d n rate nperseg nbins k)"
    by (cases k) simp_all
  show ?case
    unfolding step Suc.IH [OF nf1 len1] blk vec fr
    by (simp add: replicate_append_same add.assoc)
qed

lemma nat_succ: "0 \<le> (k::int) \<Longrightarrow> nat (k + 1) = Suc (nat k)"
  by linarith

lemma py_int_quotient:
  assumes N0: "0 \<le> N"
  shows "py_int (real_of_int N / real num_samp) = N div int num_samp"
proof -
  have q0: "0 \<le> real_of_int N / real num_samp" using N0 by simp
  show ?thesis
    by (simp only: py_int_def q0 if_True floor_int_div_nat)
qed

lemma loops_eq:
  assumes ns: "0 < num_samp" and N0: "0 \<le> N"
  shows "nat (py_int (real_of_int N / real num_samp) + 1) = Suc (nat (N div int num_samp))"
proof -
  have div0: "0 \<le> N div int num_samp" using N0 ns by (simp add: pos_imp_zdiv_nonneg_iff)
  show ?thesis
    unfolding py_int_quotient [OF N0] by (rule nat_succ [OF div0])
qed

lemma spectrum_sum_zero:
  "map (\<lambda>b. replicate nbins 0 ! b
            + (\<Sum>j<c. snd (pgram E d num_samp rate (if nbins < 256 then nbins else 256) nbins j) ! b))
       [0..<nbins]
   = map (spectrum_sum E d num_samp rate nbins c) [0..<nbins]"
  by (rule map_cong) (simp_all add: spectrum_sum_def)

lemma spectrum_loop_from_zero:
  assumes nf: "\<forall>m. \<not> fails d m"
    and shape: "\<forall>iq. length (snd (welch E iq rate (if nbins < 256 then nbins else 256) nbins)) = nbins"
  shows "spectrum_loop E num_samp nbins rate (if nbins < 256 then nbins else 256) k
           (replicate nbins 0, replicate nbins 0, 0) d
      = (Inr (if k = 0 then replicate nbins 0
              else fst (pgram E d num_samp rate (if nbins < 256 then nbins else 256) nbins (k - 1)),
              map (spectrum_sum E d num_samp rate nbins k) [0..<nbins], k),
         d\<lparr>ticks := ticks d + k, calls := calls d @ replicate k (ERead num_samp),
           cursor := cursor d + k * num_samp\<rparr>)"
proof -
  have len: "length (replicate nbins (0::real)) = nbins" by simp
  show ?thesis
    unfolding spectrum_loop_ok [OF nf shape len] spectrum_sum_zero
    by simp
qed

lemma pgram_same:
  "samples d' = samples d \<Longrightarrow> cursor d' = cursor d \<Longrightarrow>
     pgram E d' n rate nperseg nbins j = pgram E d n rate nperseg nbins j"
  by (simp add: pgram_def nth_block_def)

lemma spectrum_sum_same:
  "samples d' = samples d \<Longrightarrow> cursor d' = cursor d \<Longrightarrow>
     spectrum_sum E d' n rate nbins c = spectrum_sum E d n rate nbins c"
  by (rule ext) (simp add: spectrum_sum_def pgram_def nth_block_def)

lemma spectrum_body_unfold:
  assumes nf: "\<forall>m. \<not> fails d m" and ns: "0 < num_samp" and nn: "0 \<le> rate * t_int"
  shows "spectrum_body E num_samp nbins gain rate fc t_int cl d =
      thn (spectrum_loop E num_samp nbins rate (if nbins < 256 then nbins else 256)
             (nat (\<lfloor>rate * t_int\<rfloor> div int num_samp) + 1)
             (replicate nbins 0, replicate nbins 0, 0)
             (d\<lparr>sdr_rs := rate, sdr_fc := fc, ticks := ticks d + 3,
                calls := calls d @ [ESetRs rate, ESetFc fc, ESetGain gain],
                sdr_gain := gain\<rparr>))
          (\<lambda>acc d.
              case acc of (freqs, p_xx_tot, cnt) \<Rightarrow>
                (case py_fdiv (real (num_samp * cnt)) rate of
                   Inl e \<Rightarrow> (Inl e, d)
                 | Inr t_eff \<Rightarrow>
                     (Inr (map (\<lambda>f. f + fc) (fftshift freqs),
                           psd_scale (fftshift (np_idiv p_xx_tot cnt))
                             (get_window E (if nbins < 256 then nbins else 256)) rate),
                      if cl then close d else d)))"
proof -
  have N0: "0 \<le> \<lfloor>rate * t_int\<rfloor>" using nn by simp
  have ne: "int num_samp \<noteq> 0" using ns by simp
  show ?thesis
    unfolding spectrum_body_def Let_def
    using nf ne
    by (simp add: thn_def set_rs_def set_fc_def set_gain_def hw_call_def
        py_int_nonneg [OF nn] py_truediv_def loops_eq [OF ns N0] numeral_3_eq_3
        del: spectrum_loop.simps)
qed

lemma spectrum_body_ok:
  assumes nf: "\<forall>m. \<not> fails d m"
    and shape: "\<forall>iq. length (snd (welch E iq rate (if nbins < 256 then nbins else 256) nbins)) = nbins"
    and ns: "0 < num_samp" and nn: "0 \<le> rate * t_int"
  shows "fst (spectrum_body E num_samp nbins gain rate fc t_int cl d) =
          (if rate = 0 then Inl ZeroDivisionError else
           Inr (map (\<lambda>f. f + fc)
                  (fftshift (fst (pgram E d num_samp rate (if nbins < 256 then nbins else 256) nbins
                     (nat (\<lfloor>rate * t_int\<rfloor> div int num_samp))))),
                psd_scale
                  (fftshift (np_idiv
                     (map (spectrum_sum E d num_samp rate nbins
                        (Suc (nat (\<lfloor>rate * t_int\<rfloor> div int num_samp)))) [0..<nbins])
                     (Suc (nat (\<lfloor>rate * t_int\<rfloor> div int num_samp)))))
                  (get_window E (if nbins < 256 then nbins else 256)) rate))"
    and "calls (snd (spectrum_body E num_samp nbins gain rate fc t_int cl d)) =
           calls d @ [ESetRs rate, ESetFc fc, ESetGain gain]
             @ replicate (Suc (nat (\<lfloor>rate * t_int\<rfloor> div int num_samp))) (ERead num_samp)
             @ (if cl \<and> rate \<noteq> 0 then [EClose] else [])"
proof -
  let ?d3 = "d\<lparr>sdr_rs := rate, sdr_fc := fc, ticks := ticks d + 3,
                calls := calls d @ [ESetRs rate, ESetFc fc, ESetGain gain],
                sdr_gain := gain\<rparr>"
  let ?k = "nat (\<lfloor>rate * t_int\<rfloor> div int num_samp)"
  have nf3: "\<forall>m. \<not> fails ?d3 m" using nf by simp
  have pg: "pgram E ?d3 num_samp rate (if nbins < 256 then nbins else 256) nbins ?k
      = pgram E d num_samp rate (if nbins < 256 then nbins else 256) nbins ?k"
    by (rule pgram_same) simp_all
  have ss: "spectrum_sum E ?d3 num_samp rate nbins (Suc ?k) = spectrum_sum E d num_samp rate nbins (Suc ?k)"
    by (rule spectrum_sum_same) simp_all
  note body = spectrum_body_unfold [OF nf ns nn, of E nbins gain fc cl,
      unfolded Suc_eq_plus1 [symmetric] spectrum_loop_from_zero [OF nf3 shape]]
  show "fst (spectrum_body E num_samp nbins gain rate fc t_int cl d) =
          (if rate = 0 then Inl ZeroDivisionError else
           Inr (map (\<lambda>f. f + fc)
                  (fftshift (fst (pgram E d num_samp rate (if nbins < 256 then nbins else 256) nbins ?k))),
                psd_scale
                  (fftshift (np_idiv
                     (map (spectrum_sum E d num_samp rate nbins (Suc ?k)) [0..<nbins]) (Suc ?k)))
                  (get_window E (if nbins < 256 then nbins else 256)) rate))"
    unfolding body by (simp add: thn_def py_fdiv_def pg ss)
  show "calls (snd (spectrum_body E num_samp nbins gain rate fc t_int cl d)) =
           calls d @ [ESetRs rate, ESetFc fc, ESetGain gain]
             @ replicate (Suc ?k) (ERead num_samp) @ (if cl \<and> rate \<noteq> 0 then [EClose] else [])"
    unfolding body by (simp add: thn_def py_fdiv_def close_def)
qed

lemma psd_scale_fftshift_nth:
  assumes b: "b < length acc" and cnt: "cnt \<noteq> 0"
    and w: "sum_list (map (\<lambda>w. w * w) win) \<noteq> 0" and r: "rate \<noteq> 0"
  shows "psd_scale (fftshift (np_idiv acc cnt)) win rate ! ((b + length acc div 2) mod length acc)
           = Num (psd_value (acc ! b) cnt win rate)"
proof -
  let ?g = "\<lambda>a. np_div (np_mul (np_div (Num a) (Num (real cnt))) (window_correction win)) (Num rate)"
  have eq: "psd_scale (fftshift (np_idiv acc cnt)) win rate = fftshift (map ?g acc)"
    by (simp add: psd_scale_def np_idiv_def fftshift_map)
  have "fftshift (map ?g acc) ! ((b + length (map ?g acc) div 2) mod length (map ?g acc)) = map ?g acc ! b"
    by (rule fftshift_nth) (simp add: b)
  then have "fftshift (map ?g acc) ! ((b + length acc div 2) mod length acc) = ?g (acc ! b)"
    using b by simp
  moreover have "?g (acc ! b) = Num (psd_value (acc ! b) cnt win rate)"
    using cnt w r by (simp add: window_correction_def psd_value_def)
  ultimately show ?thesis by (simp only: eq)
qed

lemma freqs_fftshift_nth:
  assumes b: "b < length fs"
  shows "map (\<lambda>f. f + fc) (fftshift fs) ! ((b + length fs div 2) mod length fs) = fs ! b + fc"
proof -
  have "fftshift (map (\<lambda>f. f + fc) fs) ! ((b + length (map (\<lambda>f. f + fc) fs) div 2)
           mod length (map (\<lambda>f. f + fc) fs)) = map (\<lambda>f. f + fc) fs ! b"
    by (rule fftshift_nth) (simp add: b)
  then show ?thesis using b by (simp add: fftshift_map)
qed

lemma block_power_IQ:
  "block_power iq = sum_list (map (\<lambda>z. (Re z)\<^sup>2 + (Im z)\<^sup>2) iq)"
  by (simp add: block_power_def complex_mult_cnj)

lemma blocks_read_replicate: "blocks_read n (replicate k (ERead n)) = k"
  by (simp add: blocks_read_def)

lemma blocks_read_append: "blocks_read n (xs @ ys) = blocks_read n xs + blocks_read n ys"
  by (simp add: blocks_read_def)

lemma new_calls_append: "calls d' = calls d @ tr \<Longrightarrow> new_calls d d' = tr"
  by (simp add: new_calls_def)

lemma run_total_power_int_ok:
  assumes nf: "\<forall>m. \<not> fails (device_of sdr hw) m" and ns: "0 < num_samp"
    and nn: "0 \<le> rate_used sdr rate * t_int"
  shows "fst (run_total_power_int num_samp gain rate fc t_int sdr hw) =
      (let cnt = nat (\<lfloor>rate_used sdr rate * t_int\<rfloor> div int num_samp) in
       if rate = 0 \<or> cnt = 0 then Inl ZeroDivisionError
       else Inr ((\<Sum>j<cnt. block_power (dc_compensate (nth_block (device_of sdr hw) num_samp j)))
                   / real (num_samp * cnt)))"
    and "calls (snd (run_total_power_int num_samp gain rate fc t_int sdr hw)) =
      calls (device_of sdr hw)
        @ (case sdr of None \<Rightarrow> [EOpen, ESetRs rate, ESetFc fc, ESetGain gain] | Some h \<Rightarrow> [])
        @ EReadAsync num_samp
          # replicate (nat (\<lfloor>rate_used sdr rate * t_int\<rfloor> div int num_samp)) (ERead num_samp)
        @ (case sdr of
             None \<Rightarrow> if rate = 0 \<or> nat (\<lfloor>rate_used sdr rate * t_int\<rfloor> div int num_samp) = 0
                     then [EClose] else [EClose, EClose]
           | Some h \<Rightarrow> [])"
proof -
  let ?g = "hw\<lparr>ticks := ticks hw + 4,
                   calls := calls hw @ [EOpen, ESetRs rate, ESetFc fc, ESetGain gain],
                   is_open := True, sdr_rs := rate, sdr_fc := fc, sdr_gain := gain\<rparr>"
  have both: "fst (run_total_power_int num_samp gain rate fc t_int sdr hw) =
      (let cnt = nat (\<lfloor>rate_used sdr rate * t_int\<rfloor> div int num_samp) in
       if rate = 0 \<or> cnt = 0 then Inl ZeroDivisionError
       else Inr ((\<Sum>j<cnt. block_power (dc_compensate (nth_block (device_of sdr hw) num_samp j)))
                   / real (num_samp * cnt)))
    \<and> calls (snd (run_total_power_int num_samp gain rate fc t_int sdr hw)) =
      calls (device_of sdr hw)
        @ (case sdr of None \<Rightarrow> [EOpen, ESetRs rate, ESetFc fc, ESetGain gain] | Some h \<Rightarrow> [])
        @ EReadAsync num_samp
          # replicate (nat (\<lfloor>rate_used sdr rate * t_int\<rfloor> div int num_samp)) (ERead num_samp)
        @ (case sdr of
             None \<Rightarrow> if rate = 0 \<or> nat (\<lfloor>rate_used sdr rate * t_int\<rfloor> div int num_samp) = 0
                     then [EClose] else [EClose, EClose]
           | Some h \<Rightarrow> [])"
  proof (cases sdr)
    case None
    have nfh: "\<forall>m. \<not> fails hw m" using nf None by (simp add: device_of_def)
    have nfg: "\<forall>m. \<not> fails ?g m" using nfh by simp
    have nng: "0 \<le> sdr_rs ?g * t_int" using nn None by (simp add: rate_used_def)
    have blk: "\<And>j. nth_block ?g num_samp j = nth_block hw num_samp j"
      by (simp add: nth_block_def)
    show ?thesis
      using None
      by (simp add: run_total_power_int_def get_sdr_ok [OF nfh] total_power_body_ok [OF nfg ns nng]
          finally_close_def close_def Let_def device_of_def rate_used_def blk)
  next
    case (Some h)
    have nfh: "\<forall>m. \<not> fails h m" using nf Some by (simp add: device_of_def)
    have nnh: "0 \<le> sdr_rs h * t_int" using nn Some by (simp add: rate_used_def)
    show ?thesis
      using Some
      by (simp add: run_total_power_int_def total_power_body_ok [OF nfh ns nnh]
          finally_close_def close_def Let_def device_of_def rate_used_def)
  qed
  from both show "fst (run_total_power_int num_samp gain rate fc t_int sdr hw) =
      (let cnt = nat (\<lfloor>rate_used sdr rate * t_int\<rfloor> div int num_samp) in
       if rate = 0 \<or> cnt = 0 then Inl ZeroDivisionError
       else Inr ((\<Sum>j<cnt. block_power (dc_compensate (nth_block (device_of sdr hw) num_samp j)))
                   / real (num_samp * cnt)))" by (rule conjunct1)
  from both show "calls (snd (run_total_power_int num_samp gain rate fc t_int sdr hw)) =
      calls (device_of sdr hw)
        @ (case sdr of None \<Rightarrow> [EOpen, ESetRs rate, ESetFc fc, ESetGain gain] | Some h \<Rightarrow> [])
        @ EReadAsync num_samp
          # replicate (nat (\<lfloor>rate_used sdr rate * t_int\<rfloor> div int num_samp)) (ERead num_samp)
        @ (case sdr of
             None \<Rightarrow> if rate = 0 \<or> nat (\<lfloor>rate_used sdr rate * t_int\<rfloor> div int num_samp) = 0
                     then [EClose] else [EClose, EClose]
           | Some h \<Rightarrow> [])" by (rule conjunct2)
qed

lemma fst_snd_finally_close:
  "fst (finally_close c m) = fst m"
  "calls (snd (finally_close c m)) = calls (snd m) @ (if c then [EClose] else [])"
  by (simp_all add: finally_close_def close_def split: prod.splits)

lemma run_spectrum_int_ok:
  assumes nf: "\<forall>m. \<not> fails (device_of sdr hw) m"
    and shape: "\<forall>iq. length (snd (welch E iq rate (if nbins < 256 then nbins else 256) nbins)) = nbins"
    and ns: "0 < num_samp" and nn: "0 \<le> rate * t_int"
  shows "fst (run_spectrum_int E num_samp nbins gain rate fc t_int sdr hw) =
          (if rate = 0 then Inl ZeroDivisionError else
           Inr (map (\<lambda>f. f + fc)
                  (fftshift (fst (pgram E (device_of sdr hw) num_samp rate
                     (if nbins < 256 then nbins else 256) nbins
                     (nat (\<lfloor>rate * t_int\<rfloor> div int num_samp))))),
                psd_scale
                  (fftshift (np_idiv
                     (map (spectrum_sum E (device_of sdr hw) num_samp rate nbins
                        (Suc (nat (\<lfloor>rate * t_int\<rfloor> div int num_samp)))) [0..<nbins])
                     (Suc (nat (\<lfloor>rate * t_int\<rfloor> div int num_samp)))))
                  (get_window E (if nbins < 256 then nbins else 256)) rate))"
    and "calls (snd (run_spectrum_int E num_samp nbins gain rate fc t_int sdr hw)) =
           calls (device_of sdr hw)
             @ (case sdr of None \<Rightarrow> [EOpen, ESetRs rate, ESetFc fc, ESetGain gain] | Some h \<Rightarrow> [])
             @ [ESetRs rate, ESetFc fc, ESetGain gain]
             @ replicate (Suc (nat (\<lfloor>rate * t_int\<rfloor> div int num_samp))) (ERead num_samp)
             @ (case sdr of None \<Rightarrow> if rate = 0 then [EClose] else [EClose, EClose] | Some h \<Rightarrow> [])"
proof -
  let ?g = "hw\<lparr>ticks := ticks hw + 4,
                   calls := calls hw @ [EOpen, ESetRs rate, ESetFc fc, ESetGain gain],
                   is_open := True, sdr_rs := rate, sdr_fc := fc, sdr_gain := gain\<rparr>"
  let ?k = "nat (\<lfloor>rate * t_int\<rfloor> div int num_samp)"
  let ?ps = "if nbins < 256 then nbins else 256"
  show "fst (run_spectrum_int E num_samp nbins gain rate fc t_int sdr hw) =
          (if rate = 0 then Inl ZeroDivisionError else
           Inr (map (\<lambda>f. f + fc)
                  (fftshift (fst (pgram E (device_of sdr hw) num_samp rate ?ps nbins ?k))),
                psd_scale
                  (fftshift (np_idiv
                     (map (spectrum_sum E (device_of sdr hw) num_samp rate nbins (Suc ?k)) [0..<nbins])
                     (Suc ?k)))
                  (get_window E ?ps) rate))"
  proof (cases sdr)
    case None
    have nfh: "\<forall>m. \<not> fails hw m" using nf None by (simp add: device_of_def)
    have nfg: "\<forall>m. \<not> fails ?g m" using nfh by simp
    have pg: "pgram E ?g num_samp rate ?ps nbins ?k = pgram E hw num_samp rate ?ps nbins ?k"
      by (rule pgram_same) simp_all
    have ss: "spectrum_sum E ?g num_samp rate nbins (Suc ?k) = spectrum_sum E hw num_samp rate nbins (Suc ?k)"
      by (rule spectrum_sum_same) simp_all
    show ?thesis
      using None
      by (simp add: run_spectrum_int_def get_sdr_ok [OF nfh] fst_snd_finally_close
          spectrum_body_ok(1) [OF nfg shape ns nn] device_of_def pg ss)
  next
    case (Some h)
    have nfh: "\<forall>m. \<not> fails h m" using nf Some by (simp add: device_of_def)
    show ?thesis
      using Some
      by (simp add: run_spectrum_int_def fst_snd_finally_close
          spectrum_body_ok(1) [OF nfh shape ns nn] device_of_def)
  qed
  show "calls (snd (run_spectrum_int E num_samp nbins gain rate fc t_int sdr hw)) =
           calls (device_of sdr hw)
             @ (case sdr of None \<Rightarrow> [EOpen, ESetRs rate, ESetFc fc, ESetGain gain] | Some h \<Rightarrow> [])
             @ [ESetRs rate, ESetFc fc, ESetGain gain]
             @ replicate (Suc ?k) (ERead num_samp)
             @ (case sdr of None \<Rightarrow> if rate = 0 then [EClose] else [EClose, EClose] | Some h \<Rightarrow> [])"
  proof (cases sdr)
    case None
    have nfh: "\<forall>m. \<not> fails hw m" using nf None by (simp add: device_of_def)
    have nfg: "\<forall>m. \<not> fails ?g m" using nfh by simp
    show ?thesis
      using None
      by (simp add: run_spectrum_int_def get_sdr_ok [OF nfh] fst_snd_finally_close
          spectrum_body_ok(2) [OF nfg shape ns nn] device_of_def)
  next
    case (Some h)
    have nfh: "\<forall>m. \<not> fails h m" using nf Some by (simp add: device_of_def)
    show ?thesis
      using Some
      by (simp add: run_spectrum_int_def fst_snd_finally_close
          spectrum_body_ok(2) [OF nfh shape ns nn] device_of_def)
  qed
qed

lemma planned_blocks_floor:
  "0 \<le> rate * t_int \<Longrightarrow>
     int (planned_blocks rate t_int num_samp) = \<lfloor>real_of_int \<lfloor>rate * t_int\<rfloor> / real num_samp\<rfloor>"
  by (simp add: planned_blocks_def floor_int_div_nat pos_imp_zdiv_nonneg_iff div_int_pos_iff)

lemma never_undershot:
  assumes "0 < num_samp" and "0 \<le> rate * t_int"
  shows "\<lfloor>rate * t_int\<rfloor> < int (num_samp * (planned_blocks rate t_int num_samp + 1))"
proof -
  let ?N = "\<lfloor>rate * t_int\<rfloor>"
  let ?n = "int num_samp"
  have n0: "0 < ?n" using assms(1) by simp
  have N0: "0 \<le> ?N" using assms(2) by simp
  have d0: "0 \<le> ?N div ?n" using N0 n0 by (simp add: pos_imp_zdiv_nonneg_iff)
  have "?N = ?n * (?N div ?n) + ?N mod ?n" by simp
  moreover have "?N mod ?n < ?n" using n0 by simp
  ultimately have "?N < ?n * (?N div ?n) + ?n" by linarith
  also have "\<dots> = ?n * (?N div ?n + 1)" by (simp add: algebra_simps)
  also have "\<dots> = int (num_samp * (planned_blocks rate t_int num_samp + 1))"
    using d0 by (simp add: planned_blocks_def algebra_simps)
  finally show ?thesis .
qed

lemma example_hw_nofail: "\<forall>m. \<not> fails (device_of None example_hw) m"
  by (simp add: device_of_def example_hw_def)

lemma example_env_shape: "\<forall>iq. length (snd (welch example_env iq rate nperseg nbins)) = nbins"
  by (simp add: example_env_def)

lemma nth_block_ahead:
  "samples d' = samples d \<Longrightarrow> cursor d' = cursor d + m * n \<Longrightarrow>
     nth_block d' n j = nth_block d n (m + j)"
  by (simp add: nth_block_def algebra_simps)

lemma pgram_ahead:
  "samples d' = samples d \<Longrightarrow> cursor d' = cursor d + m * n \<Longrightarrow>
     pgram E d' n rate nperseg nbins j = pgram E d n rate nperseg nbins (m + j)"
  by (simp add: pgram_def nth_block_ahead [of d' d m n j])

lemma fswitch_blocks_ok:
  assumes nf: "\<forall>m. \<not> fails d m"
    and shape: "\<forall>iq. length (snd (welch E iq rate nperseg nbins)) = nbins"
    and fax: "\<forall>iq. fst (welch E iq rate nperseg nbins) = faxis"
    and lon: "length (p_xx_on acc) = nbins" and loff: "length (p_xx_off acc) = nbins"
  shows "fswitch_blocks E n nbins rate nperseg tick k acc d =
     (Inr (if tick then
             acc\<lparr>freqs_on := (if k = 0 then freqs_on acc else faxis),
                 p_xx_on := map (\<lambda>b. p_xx_on acc ! b
                                  + (\<Sum>j<k. snd (pgram E d n rate nperseg nbins j) ! b)) [0..<nbins],
                 cntOn := cntOn acc + k\<rparr>
           else
             acc\<lparr>freqs_off := (if k = 0 then freqs_off acc else faxis),
                 p_xx_off := map (\<lambda>b. p_xx_off acc ! b
                                  + (\<Sum>j<k. snd (pgram E d n rate nperseg nbins j) ! b)) [0..<nbins],
                 cntOff := cntOff acc + k\<rparr>),
      d\<lparr>ticks := ticks d + k, calls := calls d @ replicate k (ERead n),
        cursor := cursor d + k * n\<rparr>)"
  using nf lon loff
proof (induction k arbitrary: acc d)
  case 0
  have a: "map ((!) (p_xx_on acc)) [0..<length (p_xx_on acc)] = p_xx_on acc" by (rule map_nth)
  have b: "map ((!) (p_xx_off acc)) [0..<length (p_xx_off acc)] = p_xx_off acc" by (rule map_nth)
  from 0 a b show ?case by simp
next
  case (Suc k)
  let ?d1 = "d\<lparr>ticks := Suc (ticks d), calls := calls d @ [ERead n], cursor := cursor d + n\<rparr>"
  let ?w = "pgram E d n rate nperseg nbins 0"
  have nf1: "\<forall>m. \<not> fails ?d1 m" using Suc.prems by simp
  have lw: "length (snd ?w) = nbins" using shape by (simp add: pgram_def)
  have fw: "fst ?w = faxis" using fax by (simp add: pgram_def)
  have blk: "\<And>j. pgram E ?d1 n rate nperseg nbins j = pgram E d n rate nperseg nbins (Suc j)"
    using pgram_ahead [of ?d1 d 1 n] by simp
  show ?case
  proof (cases tick)
    case True
    let ?a1 = "acc\<lparr>freqs_on := faxis,
                   p_xx_on := map (\<lambda>b. p_xx_on acc ! b + snd ?w ! b) [0..<nbins],
                   cntOn := Suc (cntOn acc)\<rparr>"
    have l1: "length (p_xx_on ?a1) = nbins" "length (p_xx_off ?a1) = nbins"
      using Suc.prems by simp_all
    have add: "np_iadd (p_xx_on acc) (snd ?w) = Inr (map (\<lambda>b. p_xx_on acc ! b + snd ?w ! b) [0..<nbins])"
      using np_iadd_ok [of "snd ?w" "p_xx_on acc"] lw Suc.prems(2) by simp
    have step: "fswitch_blocks E n nbins rate nperseg tick (Suc k) acc d
        = fswitch_blocks E n nbins rate nperseg tick k ?a1 ?d1"
      using True add fw
      by (auto simp: read_samples_ok [OF Suc.prems(1)] pgram_def split: prod.splits)
    have vec: "map (\<lambda>b. p_xx_on ?a1 ! b + (\<Sum>j<k. snd (pgram E d n rate nperseg nbins (Suc j)) ! b)) [0..<nbins]
        = map (\<lambda>b. p_xx_on acc ! b + (\<Sum>j<Suc k. snd (pgram E d n rate nperseg nbins j) ! b)) [0..<nbins]"
      by (rule map_cong) (simp_all add: sum.lessThan_Suc_shift del: sum.lessThan_Suc)
    show ?thesis
      unfolding step Suc.IH [OF nf1 l1] blk vec
      using True by (simp add: replicate_append_same add.assoc)
  next
    case False
    let ?a1 = "acc\<lparr>freqs_off := faxis,
                   p_xx_off := map (\<lambda>b. p_xx_off acc ! b + snd ?w ! b) [0..<nbins],
                   cntOff := Suc (cntOff acc)\<rparr>"
    have l1: "length (p_xx_on ?a1) = nbins" "length (p_xx_off ?a1) = nbins"
      using Suc.prems by simp_all
    have add: "np_iadd (p_xx_off acc) (snd ?w) = Inr (map (\<lambda>b. p_xx_off acc ! b + snd ?w ! b) [0..<nbins])"
      using np_iadd_ok [of "snd ?w" "p_xx_off acc"] lw Suc.prems(3) by simp
    have step: "fswitch_blocks E n nbins rate nperseg tick (Suc k) acc d
        = fswitch_blocks E n nbins rate nperseg tick k ?a1 ?d1"
      using False add fw
      by (auto simp: read_samples_ok [OF Suc.prems(1)] pgram_def split: prod.splits)
    have vec: "map (\<lambda>b. p_xx_off ?a1 ! b + (\<Sum>j<k. snd (pgram E d n rate nperseg nbins (Suc j)) ! b)) [0..<nbins]
        = map (\<lambda>b. p_xx_off acc ! b + (\<Sum>j<Suc k. snd (pgram E d n rate nperseg nbins j) ! b)) [0..<nbins]"
      by (rule map_cong) (simp_all add: sum.lessThan_Suc_shift del: sum.lessThan_Suc)
    show ?thesis
      unfolding step Suc.IH [OF nf1 l1] blk vec
      using False by (simp add: replicate_append_same add.assoc)
  qed
qed

lemma set_fc_ok:
  "\<forall>m. \<not> fails d m \<Longrightarrow>
     set_fc f d = (Inr (), d\<lparr>ticks := Suc (ticks d), calls := calls d @ [ESetFc f], sdr_fc := f\<rparr>)"
  by (simp add: set_fc_def hw_call_def)

lemma fswitch_dwells_ok:
  assumes nf: "\<forall>m. \<not> fails d m"
    and shape: "\<forall>iq. length (snd (welch E iq rate nperseg nbins)) = nbins"
    and fax: "\<forall>iq. fst (welch E iq rate nperseg nbins) = faxis"
    and lon: "length (p_xx_on acc) = nbins" and loff: "length (p_xx_off acc) = nbins"
  shows "fst (fswitch_dwells E n nbins rate nperseg fc fthrow L k i acc d) =
      Inr \<lparr>freqs_on = (if (\<Sum>q<k. if even (i + q) then L else 0) = 0 then freqs_on acc else faxis),
           freqs_off = (if (\<Sum>q<k. if odd (i + q) then L else 0) = 0 then freqs_off acc else faxis),
           p_xx_on = map (\<lambda>b. p_xx_on acc ! b
                        + (\<Sum>q<k. if even (i + q)
                                   then (\<Sum>j<L. snd (pgram E d n rate nperseg nbins (q * L + j)) ! b)
                                   else 0)) [0..<nbins],
           p_xx_off = map (\<lambda>b. p_xx_off acc ! b
                        + (\<Sum>q<k. if odd (i + q)
                                   then (\<Sum>j<L. snd (pgram E d n rate nperseg nbins (q * L + j)) ! b)
                                   else 0)) [0..<nbins],
           cntOn = cntOn acc + (\<Sum>q<k. if even (i + q) then L else 0),
           cntOff = cntOff acc + (\<Sum>q<k. if odd (i + q) then L else 0)\<rparr>
    \<and> calls (snd (fswitch_dwells E n nbins rate nperseg fc fthrow L k i acc d)) =
      calls d @ concat (map (\<lambda>q. ESetFc (if even (i + q) then fc else fthrow) # replicate L (ERead n))
                          [0..<k])"
  using nf lon loff
proof (induction k arbitrary: i acc d)
  case 0
  have a: "map ((!) (p_xx_on acc)) [0..<length (p_xx_on acc)] = p_xx_on acc" by (rule map_nth)
  have b: "map ((!) (p_xx_off acc)) [0..<length (p_xx_off acc)] = p_xx_off acc" by (rule map_nth)
  from 0 a b show ?case by simp
next
  case (Suc k)
  let ?f = "if even i then fc else fthrow"
  let ?d1 = "d\<lparr>ticks := Suc (ticks d), calls := calls d @ [ESetFc ?f], sdr_fc := ?f\<rparr>"
  let ?d2 = "?d1\<lparr>ticks := ticks ?d1 + L, calls := calls ?d1 @ replicate L (ERead n),
                  cursor := cursor ?d1 + L * n\<rparr>"
  let ?pg = "\<lambda>m. snd (pgram E d n rate nperseg nbins m)"
  let ?a2 = "if even i then
             acc\<lparr>freqs_on := (if L = 0 then freqs_on acc else faxis),
                 p_xx_on := map (\<lambda>b. p_xx_on acc ! b + (\<Sum>j<L. ?pg j ! b)) [0..<nbins],
                 cntOn := cntOn acc + L\<rparr>
           else
             acc\<lparr>freqs_off := (if L = 0 then freqs_off acc else faxis),
                 p_xx_off := map (\<lambda>b. p_xx_off acc ! b + (\<Sum>j<L. ?pg j ! b)) [0..<nbins],
                 cntOff := cntOff acc + L\<rparr>"
  have nf1: "\<forall>m. \<not> fails ?d1 m" using Suc.prems by simp
  have nf2: "\<forall>m. \<not> fails ?d2 m" using Suc.prems by simp
  have pg1: "\<And>j. pgram E ?d1 n rate nperseg nbins j = pgram E d n rate nperseg nbins j"
    by (rule pgram_same) simp_all
  have pg2: "\<And>m. pgram E ?d2 n rate nperseg nbins m = pgram E d n rate nperseg nbins (L + m)"
    by (rule pgram_ahead) simp_all
  have l2: "length (p_xx_on ?a2) = nbins" "length (p_xx_off ?a2) = nbins"
    using Suc.prems by simp_all
  have inner: "fswitch_blocks E n nbins rate nperseg (even i) L acc ?d1 = (Inr ?a2, ?d2)"
    unfolding fswitch_blocks_ok [OF nf1 shape fax Suc.prems(2) Suc.prems(3)] pg1
    by simp
  have step: "fswitch_dwells E n nbins rate nperseg fc fthrow L (Suc k) i acc d
      = fswitch_dwells E n nbins rate nperseg fc fthrow L k (Suc i) ?a2 ?d2"
    using inner by (simp add: set_fc_ok [OF Suc.prems(1)] Let_def even_iff_mod_2_eq_zero)
  note IH = Suc.IH [OF nf2 l2, of "Suc i", unfolded pg2]
  have idx: "\<And>q j. L + (q * L + j) = Suc q * L + j" by simp
  have on: "map (\<lambda>b. p_xx_on ?a2 ! b
                + (\<Sum>q<k. if even (Suc i + q) then (\<Sum>j<L. ?pg (L + (q * L + j)) ! b) else 0)) [0..<nbins]
      = map (\<lambda>b. p_xx_on acc ! b
                + (\<Sum>q<Suc k. if even (i + q) then (\<Sum>j<L. ?pg (q * L + j) ! b) else 0)) [0..<nbins]"
    by (rule map_cong)
      (simp_all add: sum.lessThan_Suc_shift idx del: sum.lessThan_Suc mult_Suc cong: if_cong)
  have off: "map (\<lambda>b. p_xx_off ?a2 ! b
                + (\<Sum>q<k. if odd (Suc i + q) then (\<Sum>j<L. ?pg (L + (q * L + j)) ! b) else 0)) [0..<nbins]
      = map (\<lambda>b. p_xx_off acc ! b
                + (\<Sum>q<Suc k. if odd (i + q) then (\<Sum>j<L. ?pg (q * L + j) ! b) else 0)) [0..<nbins]"
    by (rule map_cong)
      (simp_all add: sum.lessThan_Suc_shift idx del: sum.lessThan_Suc mult_Suc cong: if_cong)
  have con: "cntOn ?a2 + (\<Sum>q<k. if even (Suc i + q) then L else 0)
      = cntOn acc + (\<Sum>q<Suc k. if even (i + q) then L else 0)"
    by (simp add: sum.lessThan_Suc_shift del: sum.lessThan_Suc)
  have coff: "cntOff ?a2 + (\<Sum>q<k. if odd (Suc i + q) then L else 0)
      = cntOff acc + (\<Sum>q<Suc k. if odd (i + q) then L else 0)"
    by (simp add: sum.lessThan_Suc_shift del: sum.lessThan_Suc)
  have fon: "(if (\<Sum>q<k. if even (Suc i + q) then L else 0) = 0 then freqs_on ?a2 else faxis)
      = (if (\<Sum>q<Suc k. if even (i + q) then L else 0) = 0 then freqs_on acc else faxis)"
    by (simp add: sum.lessThan_Suc_shift del: sum.lessThan_Suc)
  have foff: "(if (\<Sum>q<k. if odd (Suc i + q) then L else 0) = 0 then freqs_off ?a2 else faxis)
      = (if (\<Sum>q<Suc k. if odd (i + q) then L else 0) = 0 then freqs_off acc else faxis)"
    by (simp add: sum.lessThan_Suc_shift del: sum.lessThan_Suc)
  have tr: "calls ?d2 @ concat (map (\<lambda>q. ESetFc (if even (Suc i + q) then fc else fthrow)
                                          # replicate L (ERead n)) [0..<k])
      = calls d @ concat (map (\<lambda>q. ESetFc (if even (i + q) then fc else fthrow)
                                          # replicate L (ERead n)) [0..<Suc k])"
    by (simp add: upt_rec [of 0 "Suc k"] map_Suc_upt [symmetric] comp_def del: upt_Suc)
  show ?case
    unfolding step using IH
    by (simp only: on off con coff fon foff tr)
qed

lemma fswitch_body_unfold:
  assumes nf: "\<forall>m. \<not> fails d m" and ns: "0 < num_samp"
    and r: "0 < rate" and f: "0 < fswitch" and t: "0 \<le> t_int"
    and nd: "0 < \<lfloor>rate / fswitch\<rfloor>"
  shows "fswitch_body E num_samp nbins gain rate fc fthrow t_int fswitch cl d =
      thn (fswitch_dwells E num_samp nbins rate (if nbins < 256 then nbins else 256) fc fthrow
             (blocks_per_dwell rate fswitch num_samp) (num_dwells rate t_int fswitch) 0
             \<lparr>freqs_on = replicate nbins 0, freqs_off = replicate nbins 0,
              p_xx_on = replicate nbins 0, p_xx_off = replicate nbins 0,
              cntOn = 0, cntOff = 0\<rparr>
             (d\<lparr>sdr_rs := rate, sdr_fc := fc, ticks := ticks d + 3,
                calls := calls d @ [ESetRs rate, ESetFc fc, ESetGain gain],
                sdr_gain := gain\<rparr>))
          (\<lambda>acc d.
             (Inr (map (\<lambda>f. f + fc) (fftshift (freqs_on acc)),
                   psd_scale (fftshift (np_idiv (p_xx_on acc) (cntOn acc)))
                     (get_window E (if nbins < 256 then nbins else 256)) rate,
                   map (\<lambda>f. f + fthrow) (fftshift (freqs_off acc)),
                   psd_scale (fftshift (np_idiv (p_xx_off acc) (cntOff acc)))
                     (get_window E (if nbins < 256 then nbins else 256)) rate),
              if cl then close d else d))"
proof -
  have nn: "0 \<le> rate * t_int" using r t by simp
  have q0: "0 \<le> rate / fswitch" using r f by simp
  have pd: "py_int (rate / fswitch) = \<lfloor>rate / fswitch\<rfloor>" by (rule py_int_nonneg [OF q0])
  have ne: "int num_samp \<noteq> 0" "\<lfloor>rate / fswitch\<rfloor> \<noteq> 0" using ns nd by linarith+
  have rz: "rate \<noteq> 0" using r by simp
  show ?thesis
    unfolding fswitch_body_def Let_def
    using nf ne
    by (simp add: thn_def set_rs_def set_fc_def set_gain_def hw_call_def
        py_int_nonneg [OF nn] pd py_floordiv_def py_fdiv_ok [OF rz] numeral_3_eq_3
        blocks_per_dwell_def num_dwells_def
        del: fswitch_dwells.simps)
qed

lemma switch_sum_same:
  "samples d' = samples d \<Longrightarrow> cursor d' = cursor d \<Longrightarrow>
     switch_sum p E d' n rate nbins L D = switch_sum p E d n rate nbins L D"
  by (rule ext) (simp add: switch_sum_def pgram_def nth_block_def cong: if_cong)

lemma fswitch_body_ok:
  assumes nf: "\<forall>m. \<not> fails d m" and ns: "0 < num_samp"
    and r: "0 < rate" and f: "0 < fswitch" and t: "0 \<le> t_int"
    and nd: "0 < \<lfloor>rate / fswitch\<rfloor>"
    and shape: "\<forall>iq. length (snd (welch E iq rate (if nbins < 256 then nbins else 256) nbins)) = nbins"
    and fax: "\<forall>iq. fst (welch E iq rate (if nbins < 256 then nbins else 256) nbins) = faxis"
  shows "fst (fswitch_body E num_samp nbins gain rate fc fthrow t_int fswitch cl d) =
           Inr (map (\<lambda>f. f + fc)
                  (fftshift (if switch_count True (blocks_per_dwell rate fswitch num_samp)
                                  (num_dwells rate t_int fswitch) = 0
                             then replicate nbins 0 else faxis)),
                psd_scale
                  (fftshift (np_idiv
                     (map (switch_sum True E d num_samp rate nbins
                             (blocks_per_dwell rate fswitch num_samp) (num_dwells rate t_int fswitch))
                        [0..<nbins])
                     (switch_count True (blocks_per_dwell rate fswitch num_samp)
                        (num_dwells rate t_int fswitch))))
                  (get_window E (if nbins < 256 then nbins else 256)) rate,
                map (\<lambda>f. f + fthrow)
                  (fftshift (if switch_count False (blocks_per_dwell rate fswitch num_samp)
                                  (num_dwells rate t_int fswitch) = 0
                             then replicate nbins 0 else faxis)),
                psd_scale
                  (fftshift (np_idiv
                     (map (switch_sum False E d num_samp rate nbins
                             (blocks_per_dwell rate fswitch num_samp) (num_dwells rate t_int fswitch))
                        [0..<nbins])
                     (switch_count False (blocks_per_dwell rate fswitch num_samp)
                        (num_dwells rate t_int fswitch))))
                  (get_window E (if nbins < 256 then nbins else 256)) rate)"
    and "calls (snd (fswitch_body E num_samp nbins gain rate fc fthrow t_int fswitch cl d)) =
           calls d @ [ESetRs rate, ESetFc fc, ESetGain gain]
             @ dwell_calls fc fthrow num_samp (blocks_per_dwell rate fswitch num_samp)
                 (num_dwells rate t_int fswitch)
             @ (if cl then [EClose] else [])"
proof -
  let ?d3 = "d\<lparr>sdr_rs := rate, sdr_fc := fc, ticks := ticks d + 3,
                calls := calls d @ [ESetRs rate, ESetFc fc, ESetGain gain],
                sdr_gain := gain\<rparr>"
  let ?ps = "if nbins < 256 then nbins else 256"
  let ?L = "blocks_per_dwell rate fswitch num_samp"
  let ?D = "num_dwells rate t_int fswitch"
  let ?a0 = "\<lparr>freqs_on = replicate nbins 0, freqs_off = replicate nbins 0,
              p_xx_on = replicate nbins 0, p_xx_off = replicate nbins 0,
              cntOn = 0, cntOff = 0\<rparr>"
  let ?loop = "fswitch_dwells E num_samp nbins rate ?ps fc fthrow ?L ?D 0 ?a0 ?d3"
  have nf3: "\<forall>m. \<not> fails ?d3 m" using nf by simp
  have l0: "length (p_xx_on ?a0) = nbins" "length (p_xx_off ?a0) = nbins" by simp_all
  note loop = fswitch_dwells_ok [OF nf3 shape fax l0, of num_samp fc fthrow ?L ?D 0]
  have son: "map (\<lambda>b. p_xx_on ?a0 ! b
                + (\<Sum>q<?D. if even (0 + q)
                     then (\<Sum>j<?L. snd (pgram E ?d3 num_samp rate ?ps nbins (q * ?L + j)) ! b) else 0))
               [0..<nbins]
      = map (switch_sum True E d num_samp rate nbins ?L ?D) [0..<nbins]"
    by (rule map_cong) (simp_all add: switch_sum_def pgram_def nth_block_def cong: if_cong)
  have soff: "map (\<lambda>b. p_xx_off ?a0 ! b
                + (\<Sum>q<?D. if odd (0 + q)
                     then (\<Sum>j<?L. snd (pgram E ?d3 num_samp rate ?ps nbins (q * ?L + j)) ! b) else 0))
               [0..<nbins]
      = map (switch_sum False E d num_samp rate nbins ?L ?D) [0..<nbins]"
    by (rule map_cong) (simp_all add: switch_sum_def pgram_def nth_block_def cong: if_cong)
  have con: "(\<Sum>q<?D. if even (0 + q) then ?L else 0) = switch_count True ?L ?D"
    by (simp add: switch_count_def)
  have coff: "(\<Sum>q<?D. if odd (0 + q) then ?L else 0) = switch_count False ?L ?D"
    by (simp add: switch_count_def cong: if_cong)
  have tr: "concat (map (\<lambda>q. ESetFc (if even (0 + q) then fc else fthrow)
                                # replicate ?L (ERead num_samp)) [0..<?D])
      = dwell_calls fc fthrow num_samp ?L ?D"
    by (simp add: dwell_calls_def)
  note loop' = loop [unfolded son soff con coff tr]
  obtain acc' d' where ld: "?loop = (Inr acc', d')"
    and acc': "acc' = \<lparr>freqs_on = (if switch_count True ?L ?D = 0 then replicate nbins 0 else faxis),
           freqs_off = (if switch_count False ?L ?D = 0 then replicate nbins 0 else faxis),
           p_xx_on = map (switch_sum True E d num_samp rate nbins ?L ?D) [0..<nbins],
           p_xx_off = map (switch_sum False E d num_samp rate nbins ?L ?D) [0..<nbins],
           cntOn = switch_count True ?L ?D,
           cntOff = switch_count False ?L ?D\<rparr>"
    and cd': "calls d' = calls ?d3 @ dwell_calls fc fthrow num_samp ?L ?D"
    using loop' by (cases ?loop) simp
  note body = fswitch_body_unfold [OF nf ns r f t nd, of E nbins gain fc fthrow cl, unfolded ld]
  show "fst (fswitch_body E num_samp nbins gain rate fc fthrow t_int fswitch cl d) =
           Inr (map (\<lambda>f. f + fc)
                  (fftshift (if switch_count True (blocks_per_dwell rate fswitch num_samp)
                                  (num_dwells rate t_int fswitch) = 0
                             then replicate nbins 0 else faxis)),
                psd_scale
                  (fftshift (np_idiv
                     (map (switch_sum True E d num_samp rate nbins
                             (blocks_per_dwell rate fswitch num_samp) (num_dwells rate t_int fswitch))
                        [0..<nbins])
                     (switch_count True (blocks_per_dwell rate fswitch num_samp)
                        (num_dwells rate t_int fswitch))))
                  (get_window E (if nbins < 256 then nbins else 256)) rate,
                map (\<lambda>f. f + fthrow)
                  (fftshift (if switch_count False (blocks_per_dwell rate fswitch num_samp)
                                  (num_dwells rate t_int fswitch) = 0
                             then replicate nbins 0 else faxis)),
                psd_scale
                  (fftshift (np_idiv
                     (map (switch_sum False E d num_samp rate nbins
                             (blocks_per_dwell rate fswitch num_samp) (num_dwells rate t_int fswitch))
                        [0..<nbins])
                     (switch_count False (blocks_per_dwell rate fswitch num_samp)
                        (num_dwells rate t_int fswitch))))
                  (get_window E (if nbins < 256 then nbins else 256)) rate)"
    unfolding body by (simp add: thn_def acc')
  show "calls (snd (fswitch_body E num_samp nbins gain rate fc fthrow t_int fswitch cl d)) =
           calls d @ [ESetRs rate, ESetFc fc, ESetGain gain]
             @ dwell_calls fc fthrow num_samp ?L ?D @ (if cl then [EClose] else [])"
    unfolding body by (simp add: thn_def cd' close_def)
qed

lemma run_fswitch_int_ok:
  assumes nf: "\<forall>m. \<not> fails (device_of sdr hw) m" and ns: "0 < num_samp"
    and r: "0 < rate" and f: "0 < fswitch" and v: "2 / fswitch \<le> t_int"
    and nd: "0 < \<lfloor>rate / fswitch\<rfloor>"
    and shape: "\<forall>iq. length (snd (welch E iq rate (if nbins < 256 then nbins else 256) nbins)) = nbins"
    and fax: "\<forall>iq. fst (welch E iq rate (if nbins < 256 then nbins else 256) nbins) = faxis"
  shows "fst (run_fswitch_int E num_samp nbins gain rate fc fthrow t_int fswitch sdr hw) =
           Inr (map (\<lambda>f. f + fc)
                  (fftshift (if switch_count True (blocks_per_dwell rate fswitch num_samp)
                                  (num_dwells rate t_int fswitch) = 0
                             then replicate nbins 0 else faxis)),
                psd_scale
                  (fftshift (np_idiv
                     (map (switch_sum True E (device_of sdr hw) num_samp rate nbins
                             (blocks_per_dwell rate fswitch num_samp) (num_dwells rate t_int fswitch))
                        [0..<nbins])
                     (switch_count True (blocks_per_dwell rate fswitch num_samp)
                        (num_dwells rate t_int fswitch))))
                  (get_window E (if nbins < 256 then nbins else 256)) rate,
                map (\<lambda>f. f + fthrow)
                  (fftshift (if switch_count False (blocks_per_dwell rate fswitch num_samp)
                                  (num_dwells rate t_int fswitch) = 0
                             then replicate nbins 0 else faxis)),
                psd_scale
                  (fftshift (np_idiv
                     (map (switch_sum False E (device_of sdr hw) num_samp rate nbins
                             (blocks_per_dwell rate fswitch num_samp) (num_dwells rate t_int fswitch))
                        [0..<nbins])
                     (switch_count False (blocks_per_dwell rate fswitch num_samp)
                        (num_dwells rate t_int fswitch))))
                  (get_window E (if nbins < 256 then nbins else 256)) rate)"
    and "calls (snd (run_fswitch_int E num_samp nbins gain rate fc fthrow t_int fswitch sdr hw)) =
           calls (device_of sdr hw)
             @ (case sdr of None \<Rightarrow> [EOpen, ESetRs rate, ESetFc fc, ESetGain gain] | Some h \<Rightarrow> [])
             @ [ESetRs rate, ESetFc fc, ESetGain gain]
             @ dwell_calls fc fthrow num_samp (blocks_per_dwell rate fswitch num_samp)
                 (num_dwells rate t_int fswitch)
             @ (case sdr of None \<Rightarrow> [EClose, EClose] | Some h \<Rightarrow> [])"
proof -
  let ?g = "hw\<lparr>ticks := ticks hw + 4,
                   calls := calls hw @ [EOpen, ESetRs rate, ESetFc fc, ESetGain gain],
                   is_open := True, sdr_rs := rate, sdr_fc := fc, sdr_gain := gain\<rparr>"
  let ?L = "blocks_per_dwell rate fswitch num_samp"
  let ?D = "num_dwells rate t_int fswitch"
  have t: "0 \<le> t_int"
  proof -
    have "0 \<le> 2 / fswitch" using f by simp
    with v show ?thesis by linarith
  qed
  have ok: "fswitch \<noteq> 0" "2 * (1 / fswitch) \<le> t_int" using f v by simp_all
  show "fst (run_fswitch_int E num_samp nbins gain rate fc fthrow t_int fswitch sdr hw) =
           Inr (map (\<lambda>f. f + fc)
                  (fftshift (if switch_count True (blocks_per_dwell rate fswitch num_samp)
                                  (num_dwells rate t_int fswitch) = 0
                             then replicate nbins 0 else faxis)),
                psd_scale
                  (fftshift (np_idiv
                     (map (switch_sum True E (device_of sdr hw) num_samp rate nbins
                             (blocks_per_dwell rate fswitch num_samp) (num_dwells rate t_int fswitch))
                        [0..<nbins])
                     (switch_count True (blocks_per_dwell rate fswitch num_samp)
                        (num_dwells rate t_int fswitch))))
                  (get_window E (if nbins < 256 then nbins else 256)) rate,
                map (\<lambda>f. f + fthrow)
                  (fftshift (if switch_count False (blocks_per_dwell rate fswitch num_samp)
                                  (num_dwells rate t_int fswitch) = 0
                             then replicate nbins 0 else faxis)),
                psd_scale
                  (fftshift (np_idiv
                     (map (switch_sum False E (device_of sdr hw) num_samp rate nbins
                             (blocks_per_dwell rate fswitch num_samp) (num_dwells rate t_int fswitch))
                        [0..<nbins])
                     (switch_count False (blocks_per_dwell rate fswitch num_samp)
                        (num_dwells rate t_int fswitch))))
                  (get_window E (if nbins < 256 then nbins else 256)) rate)"
  proof (cases sdr)
    case None
    have nfh: "\<forall>m. \<not> fails hw m" using nf None by (simp add: device_of_def)
    have nfg: "\<forall>m. \<not> fails ?g m" using nfh by simp
    have s1: "switch_sum True E ?g num_samp rate nbins ?L ?D = switch_sum True E hw num_samp rate nbins ?L ?D"
      by (rule switch_sum_same) simp_all
    have s2: "switch_sum False E ?g num_samp rate nbins ?L ?D = switch_sum False E hw num_samp rate nbins ?L ?D"
      by (rule switch_sum_same) simp_all
    show ?thesis
      using None ok
      by (simp add: run_fswitch_int_def get_sdr_ok [OF nfh] fst_snd_finally_close
          fswitch_body_ok(1) [OF nfg ns r f t nd shape fax] device_of_def s1 s2)
  next
    case (Some h)
    have nfh: "\<forall>m. \<not> fails h m" using nf Some by (simp add: device_of_def)
    show ?thesis
      using Some ok
      by (simp add: run_fswitch_int_def fst_snd_finally_close
          fswitch_body_ok(1) [OF nfh ns r f t nd shape fax] device_of_def)
  qed
  show "calls (snd (run_fswitch_int E num_samp nbins gain rate fc fthrow t_int fswitch sdr hw)) =
           calls (device_of sdr hw)
             @ (case sdr of None \<Rightarrow> [EOpen, ESetRs rate, ESetFc fc, ESetGain gain] | Some h \<Rightarrow> [])
             @ [ESetRs rate, ESetFc fc, ESetGain gain]
             @ dwell_calls fc fthrow num_samp (blocks_per_dwell rate fswitch num_samp)
                 (num_dwells rate t_int fswitch)
             @ (case sdr of None \<Rightarrow> [EClose, EClose] | Some h \<Rightarrow> [])"
  proof (cases sdr)
    case None
    have nfh: "\<forall>m. \<not> fails hw m" using nf None by (simp add: device_of_def)
    have nfg: "\<forall>m. \<not> fails ?g m" using nfh by simp
    show ?thesis
      using None ok
      by (simp add: run_fswitch_int_def get_sdr_ok [OF nfh] fst_snd_finally_close
          fswitch_body_ok(2) [OF nfg ns r f t nd shape fax] device_of_def)
  next
    case (Some h)
    have nfh: "\<forall>m. \<not> fails h m" using nf Some by (simp add: device_of_def)
    show ?thesis
      using Some ok
      by (simp add: run_fswitch_int_def fst_snd_finally_close
          fswitch_body_ok(2) [OF nfh ns r f t nd shape fax] device_of_def)
  qed
qed

lemma blocks_read_dwell_calls:
  "blocks_read n (dwell_calls fc fthrow n L D) = D * L"
  by (induction D) (simp_all add: dwell_calls_def blocks_read_def)

lemma switch_count_closed:
  "switch_count True L D = L * ((D + 1) div 2)"
  "switch_count False L D = L * (D div 2)"
proof -
  have "switch_count True L D = L * ((D + 1) div 2) \<and> switch_count False L D = L * (D div 2)"
  proof (induction D)
    case 0
    show ?case by (simp add: switch_count_def)
  next
    case (Suc D)
    then show ?case
      by (cases "even D") (auto simp: switch_count_def algebra_simps elim!: evenE oddE)
  qed
  then show "switch_count True L D = L * ((D + 1) div 2)" "switch_count False L D = L * (D div 2)"
    by simp_all
qed

lemma div_mult_le_int: "0 < (n::int) \<Longrightarrow> M div n * n \<le> M"
proof -
  assume n: "0 < n"
  have "M = M div n * n + M mod n" by simp
  moreover have "0 \<le> M mod n" using n by simp
  ultimately show ?thesis by linarith
qed

lemma plan_le_budget_int:
  assumes N: "0 \<le> (N::int)" and M: "0 \<le> M" and n: "0 < n"
  shows "(N div M) * (M div n) \<le> N div n"
proof (cases "M = 0")
  case True
  then show ?thesis using N n by (simp add: pos_imp_zdiv_nonneg_iff)
next
  case False
  then have Mp: "0 < M" using M by simp
  have a: "0 \<le> N div M" using N Mp by (simp add: pos_imp_zdiv_nonneg_iff)
  have "(N div M) * ((M div n) * n) \<le> (N div M) * M"
    using div_mult_le_int [OF n, of M] a by (rule mult_left_mono)
  also have "(N div M) * M \<le> N" by (rule div_mult_le_int [OF Mp])
  finally have le: "((N div M) * (M div n)) * n \<le> N" by (simp add: mult.assoc)
  have "((N div M) * (M div n)) * n div n \<le> N div n"
    using le n by (rule zdiv_mono1)
  then show ?thesis using n by simp
qed

lemma plan_le_budget:
  assumes ns: "0 < num_samp" and r: "0 < rate" and f: "0 < fswitch" and t: "0 \<le> t_int"
  shows "num_dwells rate t_int fswitch * blocks_per_dwell rate fswitch num_samp
           \<le> planned_blocks rate t_int num_samp"
proof -
  let ?N = "\<lfloor>rate * t_int\<rfloor>" and ?M = "\<lfloor>rate / fswitch\<rfloor>" and ?n = "int num_samp"
  have N: "0 \<le> ?N" using r t by simp
  have M: "0 \<le> ?M" using r f by simp
  have n: "0 < ?n" using ns by simp
  have a: "0 \<le> ?N div ?M" using N M by (simp add: div_int_pos_iff)
  have b: "0 \<le> ?M div ?n" using M n by (simp add: div_int_pos_iff)
  have "int (num_dwells rate t_int fswitch * blocks_per_dwell rate fswitch num_samp)
      = (?N div ?M) * (?M div ?n)"
    using a b by (simp add: num_dwells_def blocks_per_dwell_def)
  also have "\<dots> \<le> ?N div ?n" by (rule plan_le_budget_int [OF N M n])
  also have "\<dots> = int (planned_blocks rate t_int num_samp)"
    using N n by (simp add: planned_blocks_def div_int_pos_iff)
  finally have "int (num_dwells rate t_int fswitch * blocks_per_dwell rate fswitch num_samp)
      \<le> int (planned_blocks rate t_int num_samp)" .
  then show ?thesis by (simp only: of_nat_le_iff)
qed

lemma blocks_read_simps:
  "blocks_read n [] = 0"
  "blocks_read n (e # es) = (if e = ERead n then 1 else 0) + blocks_read n es"
  by (simp_all add: blocks_read_def)

lemma fswitch_body_zero_dwell:
  assumes nf: "\<forall>m. \<not> fails d m" and ns: "0 < num_samp"
    and r: "0 < rate" and f: "0 < fswitch"
    and nd: "\<lfloor>rate / fswitch\<rfloor> = 0"
  shows "fst (fswitch_body E num_samp nbins gain rate fc fthrow t_int fswitch cl d) = Inl ZeroDivisionError"
    and "calls (snd (fswitch_body E num_samp nbins gain rate fc fthrow t_int fswitch cl d))
           = calls d @ [ESetRs rate, ESetFc fc, ESetGain gain]"
proof -
  have q0: "0 \<le> rate / fswitch" using r f by simp
  have pd: "py_int (rate / fswitch) = 0" using py_int_nonneg [OF q0] nd by simp
  have ne: "int num_samp \<noteq> 0" using ns by simp
  show "fst (fswitch_body E num_samp nbins gain rate fc fthrow t_int fswitch cl d) = Inl ZeroDivisionError"
    unfolding fswitch_body_def Let_def
    using nf ne
    by (simp add: thn_def set_rs_def set_fc_def set_gain_def hw_call_def pd py_floordiv_def)
  show "calls (snd (fswitch_body E num_samp nbins gain rate fc fthrow t_int fswitch cl d))
           = calls d @ [ESetRs rate, ESetFc fc, ESetGain gain]"
    unfolding fswitch_body_def Let_def
    using nf ne
    by (simp add: thn_def set_rs_def set_fc_def set_gain_def hw_call_def pd py_floordiv_def)
qed

lemma run_fswitch_int_zero_dwell:
  assumes nf: "\<forall>m. \<not> fails (device_of sdr hw) m" and ns: "0 < num_samp"
    and r: "0 < rate" and f: "0 < fswitch" and v: "2 / fswitch \<le> t_int"
    and nd: "\<lfloor>rate / fswitch\<rfloor> = 0"
  shows "fst (run_fswitch_int E num_samp nbins gain rate fc fthrow t_int fswitch sdr hw)
           = Inl ZeroDivisionError"
    and "calls (snd (run_fswitch_int E num_samp nbins gain rate fc fthrow t_int fswitch sdr hw))
           = calls (device_of sdr hw)
             @ (case sdr of None \<Rightarrow> [EOpen, ESetRs rate, ESetFc fc, ESetGain gain] | Some h \<Rightarrow> [])
             @ [ESetRs rate, ESetFc fc, ESetGain gain]
             @ (case sdr of None \<Rightarrow> [EClose] | Some h \<Rightarrow> [])"
proof -
  let ?g = "hw\<lparr>ticks := ticks hw + 4,
                   calls := calls hw @ [EOpen, ESetRs rate, ESetFc fc, ESetGain gain],
                   is_open := True, sdr_rs := rate, sdr_fc := fc, sdr_gain := gain\<rparr>"
  have ok: "fswitch \<noteq> 0" "2 * (1 / fswitch) \<le> t_int" using f v by simp_all
  have both: "fst (run_fswitch_int E num_samp nbins gain rate fc fthrow t_int fswitch sdr hw)
           = Inl ZeroDivisionError
    \<and> calls (snd (run_fswitch_int E num_samp nbins gain rate fc fthrow t_int fswitch sdr hw))
           = calls (device_of sdr hw)
             @ (case sdr of None \<Rightarrow> [EOpen, ESetRs rate, ESetFc fc, ESetGain gain] | Some h \<Rightarrow> [])
             @ [ESetRs rate, ESetFc fc, ESetGain gain]
             @ (case sdr of None \<Rightarrow> [EClose] | Some h \<Rightarrow> [])"
  proof (cases sdr)
    case None
    have nfh: "\<forall>m. \<not> fails hw m" using nf None by (simp add: device_of_def)
    have nfg: "\<forall>m. \<not> fails ?g m" using nfh by simp
    show ?thesis
      using None ok
      by (simp add: run_fswitch_int_def get_sdr_ok [OF nfh] fst_snd_finally_close
          fswitch_body_zero_dwell [OF nfg ns r f nd] device_of_def)
  next
    case (Some h)
    have nfh: "\<forall>m. \<not> fails h m" using nf Some by (simp add: device_of_def)
    show ?thesis
      using Some ok
      by (simp add: run_fswitch_int_def fst_snd_finally_close
          fswitch_body_zero_dwell [OF nfh ns r f nd] device_of_def)
  qed
  from both show "fst (run_fswitch_int E num_samp nbins gain rate fc fthrow t_int fswitch sdr hw)
           = Inl ZeroDivisionError" by (rule conjunct1)
  from both show "calls (snd (run_fswitch_int E num_samp nbins gain rate fc fthrow t_int fswitch sdr hw))
           = calls (device_of sdr hw)
             @ (case sdr of None \<Rightarrow> [EOpen, ESetRs rate, ESetFc fc, ESetGain gain] | Some h \<Rightarrow> [])
             @ [ESetRs rate, ESetFc fc, ESetGain gain]
             @ (case sdr of None \<Rightarrow> [EClose] | Some h \<Rightarrow> [])" by (rule conjunct2)
qed

lemma example_env_axis:
  "\<forall>iq. fst (welch example_env iq rate nperseg nbins) = map real [0..<nbins]"
  by (simp add: example_env_def)

lemma two_dwells:
  assumes r: "0 < rate" and f: "0 < fswitch" and v: "2 / fswitch \<le> t_int"
    and nd: "0 < \<lfloor>rate / fswitch\<rfloor>"
  shows "2 \<le> num_dwells rate t_int fswitch"
proof -
  let ?M = "\<lfloor>rate / fswitch\<rfloor>" and ?N = "\<lfloor>rate * t_int\<rfloor>"
  define x where "x = rate / fswitch"
  have "rate * (2 / fswitch) \<le> rate * t_int"
    using v r by (intro mult_left_mono) simp_all
  moreover have "rate * (2 / fswitch) = 2 * x" by (simp add: x_def)
  ultimately have x2: "2 * x \<le> rate * t_int" by simp
  have "real_of_int (2 * \<lfloor>x\<rfloor>) = 2 * real_of_int \<lfloor>x\<rfloor>" by simp
  with x2 of_int_floor_le [of x] have "real_of_int (2 * \<lfloor>x\<rfloor>) \<le> rate * t_int"
    by linarith
  then have "2 * \<lfloor>x\<rfloor> \<le> ?N" by (simp only: le_floor_iff)
  then have le: "2 * ?M \<le> ?N" by (simp only: x_def)
  have "(2 * ?M) div ?M \<le> ?N div ?M" using le nd by (rule zdiv_mono1)
  then have "2 \<le> ?N div ?M" using nd by simp
  then show ?thesis by (simp add: num_dwells_def)
qed

lemma one_block_per_dwell:
  assumes ns: "0 < num_samp" and fit: "int num_samp \<le> \<lfloor>rate / fswitch\<rfloor>"
  shows "1 \<le> blocks_per_dwell rate fswitch num_samp"
proof -
  have n: "0 < int num_samp" using ns by simp
  have "int num_samp div int num_samp \<le> \<lfloor>rate / fswitch\<rfloor> div int num_samp"
    using fit n by (rule zdiv_mono1)
  then have "1 \<le> \<lfloor>rate / fswitch\<rfloor> div int num_samp" using n by simp
  then show ?thesis by (simp add: blocks_per_dwell_def)
qed

lemma switch_count_pos:
  assumes "1 \<le> L" and "2 \<le> D"
  shows "0 < switch_count True L D" and "0 < switch_count False L D"
proof -
  have a: "0 < (D + 1) div 2" using assms(2) by linarith
  have b: "0 < D div 2" using assms(2) by linarith
  show "0 < switch_count True L D" using assms(1) a by (simp add: switch_count_closed)
  show "0 < switch_count False L D" using assms(1) b by (simp add: switch_count_closed)
qed

lemma length_psd_scale: "length (psd_scale p win rate) = length p"
  by (simp add: psd_scale_def)

lemma length_np_idiv: "length (np_idiv acc cnt) = length acc"
  by (simp add: np_idiv_def)



subsection \<open>DC compensation\<close>

lemma sum_list_shift:
  "sum_list (map (\<lambda>x. f x - (c::real)) xs) = sum_list (map f xs) - real (length xs) * c"
  by (induction xs) (simp_all add: algebra_simps)

lemma dc_compensate_Re:
  "map Re (dc_compensate iq) = map (\<lambda>z. Re z - mean (map Re iq)) iq"
  by (simp add: dc_compensate_def)

lemma dc_compensate_Im:
  "map Im (dc_compensate iq) = map (\<lambda>z. Im z - mean (map Im iq)) iq"
  by (simp add: dc_compensate_def)

lemma mean_shift_zero:
  assumes "xs \<noteq> []"
  shows "mean (map (\<lambda>z. f z - mean (map f xs)) xs) = 0"
proof -
  have "real (length xs) \<noteq> 0" using assms by simp
  then show ?thesis
    by (simp add: mean_def sum_list_shift)
qed

text \<open>
  Claim C9. DC compensation keeps the length of the block; every output sample is the
  input sample with the block's real-part mean taken off its real part and the block's
  imaginary-part mean taken off its imaginary part; and on a block with at least one
  sample the real parts and the imaginary parts of the output each have mean zero.
\<close>

theorem dc_compensate_zero_mean:
  "length (dc_compensate iq) = length iq
   \<and> (\<forall>k < length iq.
        Re (dc_compensate iq ! k) = Re (iq ! k) - mean (map Re iq)
      \<and> Im (dc_compensate iq ! k) = Im (iq ! k) - mean (map Im iq))
   \<and> (iq \<noteq> [] \<longrightarrow> mean (map Re (dc_compensate iq)) = 0
                  \<and> mean (map Im (dc_compensate iq)) = 0)"
proof (intro conjI allI impI)
  show "length (dc_compensate iq) = length iq"
    by (simp add: dc_compensate_def)
next
  fix k assume "k < length iq"
  then show "Re (dc_compensate iq ! k) = Re (iq ! k) - mean (map Re iq)"
    by (simp add: dc_compensate_def)
next
  fix k assume "k < length iq"
  then show "Im (dc_compensate iq ! k) = Im (iq ! k) - mean (map Im iq)"
    by (simp add: dc_compensate_def)
next
  assume ne: "iq \<noteq> []"
  show "mean (map Re (dc_compensate iq)) = 0"
    unfolding dc_compensate_Re by (rule mean_shift_zero [OF ne])
next
  assume ne: "iq \<noteq> []"
  show "mean (map Im (dc_compensate iq)) = 0"
    unfolding dc_compensate_Im by (rule mean_shift_zero [OF ne])
qed

theorem dc_compensate_zero_mean_witness:
  "length (dc_compensate [Complex 1 2, Complex 3 6]) = 2
   \<and> Re (dc_compensate [Complex 1 2, Complex 3 6] ! 1) = 1
   \<and> Im (dc_compensate [Complex 1 2, Complex 3 6] ! 1) = 2
   \<and> mean (map Re (dc_compensate [Complex 1 2, Complex 3 6])) = 0
   \<and> mean (map Im (dc_compensate [Complex 1 2, Complex 3 6])) = 0"
proof -
  have ne: "[Complex 1 2, Complex 3 6] \<noteq> []" by simp
  have k: "(1::nat) < length [Complex 1 2, Complex 3 6]" by simp
  from dc_compensate_zero_mean [of "[Complex 1 2, Complex 3 6]"] ne k
  have "length (dc_compensate [Complex 1 2, Complex 3 6]) = length [Complex 1 2, Complex 3 6]"
    and "Re (dc_compensate [Complex 1 2, Complex 3 6] ! 1)
           = Re ([Complex 1 2, Complex 3 6] ! 1) - mean (map Re [Complex 1 2, Complex 3 6])"
    and "Im (dc_compensate [Complex 1 2, Complex 3 6] ! 1)
           = Im ([Complex 1 2, Complex 3 6] ! 1) - mean (map Im [Complex 1 2, Complex 3 6])"
    and "mean (map Re (dc_compensate [Complex 1 2, Complex 3 6])) = 0"
    and "mean (map Im (dc_compensate [Complex 1 2, Complex 3 6])) = 0"
    by blast+
  then show ?thesis by (simp add: mean_def)
qed

subsection \<open>Validation of the switching period\<close>

text \<open>
  Claim C6. With a non-zero switching rate, a call of the frequency-switched driver with
  \<open>t_int < 2 / fswitch\<close> raises the assertion error and leaves the device exactly as
  it was: nothing is opened, tuned or read, and no result is returned. With
  \<open>t_int \<ge> 2 / fswitch\<close> the call does not raise the assertion error.
\<close>

theorem fswitch_rejects_short_integration:
  assumes "fswitch \<noteq> 0"
  shows "(t_int < 2 / fswitch \<longrightarrow>
            run_fswitch_int E num_samp nbins gain rate fc fthrow t_int fswitch sdr hw
              = (Inl AssertionError, case sdr of None \<Rightarrow> hw | Some h \<Rightarrow> h))
       \<and> (2 / fswitch \<le> t_int \<longrightarrow>
            fst (run_fswitch_int E num_samp nbins gain rate fc fthrow t_int fswitch sdr hw)
              \<noteq> Inl AssertionError)"
proof (intro conjI impI)
  assume "t_int < 2 / fswitch"
  then show "run_fswitch_int E num_samp nbins gain rate fc fthrow t_int fswitch sdr hw
              = (Inl AssertionError, case sdr of None \<Rightarrow> hw | Some h \<Rightarrow> h)"
    using assms by (simp add: run_fswitch_int_def)
next
  assume "2 / fswitch \<le> t_int"
  then have ok: "2 * (1 / fswitch) \<le> t_int" by simp
  show "fst (run_fswitch_int E num_samp nbins gain rate fc fthrow t_int fswitch sdr hw)
              \<noteq> Inl AssertionError"
  proof (cases sdr)
    case None
    show ?thesis
    proof (cases "get_sdr rate fc gain hw")
      case (Pair r d)
      then show ?thesis
        using assms ok None get_sdr_no_assert [of rate fc gain hw]
        by (cases r) (simp_all add: run_fswitch_int_def fst_finally_close fswitch_body_no_assert)
    qed
  next
    case (Some h)
    then show ?thesis
      using assms ok
      by (simp add: run_fswitch_int_def fst_finally_close fswitch_body_no_assert)
  qed
qed

theorem fswitch_rejects_short_integration_witness:
  "(10::real) \<noteq> 0
   \<and> run_fswitch_int example_env 2 4 35 8 100 200 (1/10) 10 None example_hw
         = (Inl AssertionError, example_hw)
   \<and> fst (run_fswitch_int example_env 2 4 35 8 100 200 1 10 None example_hw)
         \<noteq> Inl AssertionError"
proof -
  have nz: "(10::real) \<noteq> 0" by simp
  have lt: "(1/10::real) < 2 / 10" by simp
  have ge: "(2::real) / 10 \<le> 1" by simp
  from fswitch_rejects_short_integration [OF nz, of "1/10" example_env 2 4 35 8 100 200 None example_hw] lt
  have a: "run_fswitch_int example_env 2 4 35 8 100 200 (1/10) 10 None example_hw
         = (Inl AssertionError, example_hw)"
    by simp
  from fswitch_rejects_short_integration [OF nz, of 1 example_env 2 4 35 8 100 200 None example_hw] ge
  have b: "fst (run_fswitch_int example_env 2 4 35 8 100 200 1 10 None example_hw)
         \<noteq> Inl AssertionError"
    by simp
  from nz a b show ?thesis by simp
qed

subsection \<open>Closing the sample source\<close>

text \<open>
  Claim C5 does not hold of the code. \<^verbatim>\<open>get_sdr\<close> opens the device and then sets
  the rate, the centre frequency and the gain. When one of the three settings raises, the
  exception leaves \<^verbatim>\<open>get_sdr\<close> before the handle is returned; in the
  \<^verbatim>\<open>finally\<close> clause of the driver \<^verbatim>\<open>sdr\<close> is still \<^verbatim>\<open>None\<close>,
  and the device that the driver opened is not closed. Below, the device is closed before
  the call and refuses the sample rate, the second call made on it: each of the four
  drivers raises the error of the device and leaves it open, the only call carried out
  being the one that opened it. The drivers do close the device when the error comes
  later: with the same error on the first call after \<^verbatim>\<open>get_sdr\<close> returned, the
  spectral driver raises and leaves the device closed, by the one \<^verbatim>\<open>close()\<close> of
  its \<^verbatim>\<open>finally\<close> clause.
\<close>

theorem failed_setup_leaves_device_open:
  "\<not> is_open example_hw
   \<and> fst (run_total_power_int 2 35 8 100 1 None (example_hw\<lparr>fails := (\<lambda>n. n = 1)\<rparr>))
       = Inl HardwareError
   \<and> is_open (snd (run_total_power_int 2 35 8 100 1 None (example_hw\<lparr>fails := (\<lambda>n. n = 1)\<rparr>)))
   \<and> calls (snd (run_total_power_int 2 35 8 100 1 None (example_hw\<lparr>fails := (\<lambda>n. n = 1)\<rparr>)))
       = [EOpen]
   \<and> fst (dicke example_env 2 35 8 100 1 None (example_hw\<lparr>fails := (\<lambda>n. n = 1)\<rparr>))
       = Inl HardwareError
   \<and> is_open (snd (dicke example_env 2 35 8 100 1 None (example_hw\<lparr>fails := (\<lambda>n. n = 1)\<rparr>)))
   \<and> calls (snd (dicke example_env 2 35 8 100 1 None (example_hw\<lparr>fails := (\<lambda>n. n = 1)\<rparr>)))
       = [EOpen]
   \<and> fst (run_spectrum_int example_env 2 4 35 8 100 1 None (example_hw\<lparr>fails := (\<lambda>n. n = 1)\<rparr>))
       = Inl HardwareError
   \<and> is_open (snd (run_spectrum_int example_env 2 4 35 8 100 1 None
                      (example_hw\<lparr>fails := (\<lambda>n. n = 1)\<rparr>)))
   \<and> calls (snd (run_spectrum_int example_env 2 4 35 8 100 1 None
                    (example_hw\<lparr>fails := (\<lambda>n. n = 1)\<rparr>)))
       = [EOpen]
   \<and> fst (run_fswitch_int example_env 2 4 35 8 100 200 1 2 None
             (example_hw\<lparr>fails := (\<lambda>n. n = 1)\<rparr>))
       = Inl HardwareError
   \<and> is_open (snd (run_fswitch_int example_env 2 4 35 8 100 200 1 2 None
                      (example_hw\<lparr>fails := (\<lambda>n. n = 1)\<rparr>)))
   \<and> calls (snd (run_fswitch_int example_env 2 4 35 8 100 200 1 2 None
                    (example_hw\<lparr>fails := (\<lambda>n. n = 1)\<rparr>)))
       = [EOpen]
   \<and> fst (run_spectrum_int example_env 2 4 35 8 100 1 None (example_hw\<lparr>fails := (\<lambda>n. n = 4)\<rparr>))
       = Inl HardwareError
   \<and> \<not> is_open (snd (run_spectrum_int example_env 2 4 35 8 100 1 None
                        (example_hw\<lparr>fails := (\<lambda>n. n = 4)\<rparr>)))
   \<and> calls (snd (run_spectrum_int example_env 2 4 35 8 100 1 None
                    (example_hw\<lparr>fails := (\<lambda>n. n = 4)\<rparr>)))
       = [EOpen, ESetRs 8, ESetFc 100, ESetGain 35, EClose]"
  by code_simp

subsection \<open>Block counts of the plain drivers\<close>

text \<open>
  Claim C4. On a device without faults, with at least one sample per call, a
  non-negative \<open>rate * t_int\<close> and the handle running at the requested rate: the
  total-power driver acquires exactly \<open>floor(N / num_samp)\<close> blocks for
  \<open>N = floor(rate * t_int)\<close>, the count at which the bounded callback stream stops
  for the budget \<open>N / num_samp\<close>; the spectral driver acquires exactly one block
  more, and its blocks hold more than \<open>N\<close> samples, so that the requested time is
  never undershot.
\<close>

theorem block_counts:
  assumes nf: "\<forall>m. \<not> fails (device_of sdr hw) m"
    and ns: "0 < num_samp"
    and nn: "0 \<le> rate * t_int"
    and rs: "rate_used sdr rate = rate"
    and shape: "\<forall>iq. length (snd (welch E iq rate (if nbins < 256 then nbins else 256) nbins)) = nbins"
  shows "blocks_read num_samp
           (new_calls (device_of sdr hw) (snd (run_total_power_int num_samp gain rate fc t_int sdr hw)))
         = planned_blocks rate t_int num_samp
       \<and> blocks_read num_samp
           (new_calls (device_of sdr hw) (snd (run_spectrum_int E num_samp nbins gain rate fc t_int sdr hw)))
         = planned_blocks rate t_int num_samp + 1
       \<and> int (planned_blocks rate t_int num_samp) = \<lfloor>real_of_int \<lfloor>rate * t_int\<rfloor> / real num_samp\<rfloor>
       \<and> \<lfloor>rate * t_int\<rfloor> < int (num_samp * (planned_blocks rate t_int num_samp + 1))"
proof (intro conjI)
  have nn': "0 \<le> rate_used sdr rate * t_int" using nn rs by simp
  show "blocks_read num_samp
           (new_calls (device_of sdr hw) (snd (run_total_power_int num_samp gain rate fc t_int sdr hw)))
         = planned_blocks rate t_int num_samp"
    unfolding new_calls_append [OF run_total_power_int_ok(2) [OF nf ns nn']]
    by (simp add: blocks_read_def rs planned_blocks_def split: option.splits)
next
  show "blocks_read num_samp
           (new_calls (device_of sdr hw) (snd (run_spectrum_int E num_samp nbins gain rate fc t_int sdr hw)))
         = planned_blocks rate t_int num_samp + 1"
    unfolding new_calls_append [OF run_spectrum_int_ok(2) [OF nf shape ns nn]]
    by (simp add: blocks_read_def planned_blocks_def split: option.splits)
next
  show "int (planned_blocks rate t_int num_samp) = \<lfloor>real_of_int \<lfloor>rate * t_int\<rfloor> / real num_samp\<rfloor>"
    by (rule planned_blocks_floor [OF nn])
next
  show "\<lfloor>rate * t_int\<rfloor> < int (num_samp * (planned_blocks rate t_int num_samp + 1))"
    by (rule never_undershot [OF ns nn])
qed

theorem block_counts_witness:
  "(\<forall>m. \<not> fails (device_of None example_hw) m)
   \<and> (0::nat) < 2 \<and> (0::real) \<le> 9 * 1 \<and> rate_used None 9 = 9
   \<and> (\<forall>iq. length (snd (welch example_env iq 9 (if (4::nat) < 256 then 4 else 256) 4)) = 4)
   \<and> blocks_read 2
        (new_calls (device_of None example_hw) (snd (run_total_power_int 2 35 9 100 1 None example_hw)))
      = 4
   \<and> blocks_read 2
        (new_calls (device_of None example_hw)
           (snd (run_spectrum_int example_env 2 4 35 9 100 1 None example_hw)))
      = 5"
proof -
  have h1: "\<forall>m. \<not> fails (device_of None example_hw) m" by (rule example_hw_nofail)
  have h2: "(0::nat) < 2" by simp
  have h3: "(0::real) \<le> 9 * 1" by simp
  have h4: "rate_used None 9 = 9" by (simp add: rate_used_def)
  have h5: "\<forall>iq. length (snd (welch example_env iq 9 (if (4::nat) < 256 then 4 else 256) 4)) = 4"
    by (rule example_env_shape)
  have pb: "planned_blocks 9 1 2 = 4" by (simp add: planned_blocks_def)
  from block_counts [OF h1 h2 h3 h4 h5, of 35 100] pb h1 h2 h3 h4 h5
  show ?thesis by simp
qed

subsection \<open>The total-power average\<close>

text \<open>
  Claim C8. On a device without faults and for a requested rate other than zero, a
  total-power integration over \<open>count \<ge> 1\<close> blocks returns the sum over all
  blocks of the per-sample \<open>I\<^sup>2 + Q\<^sup>2\<close> of the DC-compensated block,
  divided by \<open>num_samp * count\<close>; and if every block has the same power
  \<open>p\<close>, the average is \<open>p / num_samp\<close>. The count is the one of the
  handle's own rate; the requested rate enters through the last log line only, which
  raises for the rate zero before the average is formed, so that nothing is returned
  there.
\<close>

theorem total_power_average:
  assumes nf: "\<forall>m. \<not> fails (device_of sdr hw) m"
    and ns: "0 < num_samp"
    and rz: "rate \<noteq> 0"
    and nn: "0 \<le> rate_used sdr rate * t_int"
    and cnt: "0 < planned_blocks (rate_used sdr rate) t_int num_samp"
  shows "fst (run_total_power_int num_samp gain rate fc t_int sdr hw)
           = Inr ((\<Sum>j<planned_blocks (rate_used sdr rate) t_int num_samp.
                     sum_list (map (\<lambda>z. (Re z)\<^sup>2 + (Im z)\<^sup>2)
                       (dc_compensate (nth_block (device_of sdr hw) num_samp j))))
                  / real (num_samp * planned_blocks (rate_used sdr rate) t_int num_samp))
       \<and> ((\<forall>j<planned_blocks (rate_used sdr rate) t_int num_samp.
              block_power (dc_compensate (nth_block (device_of sdr hw) num_samp j)) = p)
            \<longrightarrow> fst (run_total_power_int num_samp gain rate fc t_int sdr hw)
                  = Inr (p / real num_samp))"
proof -
  let ?c = "planned_blocks (rate_used sdr rate) t_int num_samp"
  let ?bp = "\<lambda>j. block_power (dc_compensate (nth_block (device_of sdr hw) num_samp j))"
  have res: "fst (run_total_power_int num_samp gain rate fc t_int sdr hw)
      = Inr ((\<Sum>j<?c. ?bp j) / real (num_samp * ?c))"
    using run_total_power_int_ok(1) [where gain = gain and rate = rate and fc = fc, OF nf ns nn] cnt rz
    by (simp add: planned_blocks_def Let_def)
  have first: "fst (run_total_power_int num_samp gain rate fc t_int sdr hw)
      = Inr ((\<Sum>j<?c. sum_list (map (\<lambda>z. (Re z)\<^sup>2 + (Im z)\<^sup>2)
                       (dc_compensate (nth_block (device_of sdr hw) num_samp j))))
             / real (num_samp * ?c))"
    unfolding res by (simp only: block_power_IQ)
  have second: "fst (run_total_power_int num_samp gain rate fc t_int sdr hw) = Inr (p / real num_samp)"
    if same: "\<forall>j<?c. ?bp j = p"
  proof -
    have "(\<Sum>j<?c. ?bp j) = (\<Sum>j<?c. p)"
      by (rule sum.cong) (use same in simp_all)
    then have "(\<Sum>j<?c. ?bp j) = real ?c * p" by simp
    then have "(\<Sum>j<?c. ?bp j) / real (num_samp * ?c) = p / real num_samp"
      using cnt ns by simp
    then show ?thesis unfolding res by simp
  qed
  from first second show ?thesis by blast
qed

theorem total_power_average_witness:
  "(\<forall>m. \<not> fails (device_of None example_hw) m)
   \<and> (0::nat) < 2 \<and> (4::real) \<noteq> 0 \<and> 0 \<le> rate_used None 4 * 1
   \<and> 0 < planned_blocks (rate_used None 4) 1 2
   \<and> block_power (dc_compensate (nth_block (device_of None example_hw) 2 0)) = 1/2
   \<and> block_power (dc_compensate (nth_block (device_of None example_hw) 2 1)) = 1/2
   \<and> fst (run_total_power_int 2 35 4 100 1 None example_hw) = Inr (1/4)"
proof -
  have h1: "\<forall>m. \<not> fails (device_of None example_hw) m" by (rule example_hw_nofail)
  have h2: "(0::nat) < 2" by simp
  have hz: "(4::real) \<noteq> 0" by simp
  have h3: "0 \<le> rate_used None 4 * 1" by (simp add: rate_used_def)
  have pb: "planned_blocks (rate_used None 4) 1 2 = 2" by (simp add: planned_blocks_def rate_used_def)
  have h4: "0 < planned_blocks (rate_used None 4) 1 2" by (simp add: pb)
  have b0: "block_power (dc_compensate (nth_block (device_of None example_hw) 2 0)) = 1/2"
    by code_simp
  have b1: "block_power (dc_compensate (nth_block (device_of None example_hw) 2 1)) = 1/2"
    by code_simp
  have same: "\<forall>j<planned_blocks (rate_used None 4) 1 2.
      block_power (dc_compensate (nth_block (device_of None example_hw) 2 j)) = 1/2"
    unfolding pb using b0 b1 by (auto simp: less_2_cases_iff)
  from total_power_average [OF h1 h2 hz h3 h4, of 35 100 "1/2"] same
  have "fst (run_total_power_int 2 35 4 100 1 None example_hw) = Inr (1/2 / real 2)" by blast
  then have "fst (run_total_power_int 2 35 4 100 1 None example_hw) = Inr (1/4)" by simp
  with h1 h2 hz h3 h4 b0 b1 show ?thesis by blast
qed



subsection \<open>The dwell plan stays within the sample budget\<close>

text \<open>
  Claim C7. For a valid frequency-switched configuration (at least one sample per call,
  positive switching rate and sample rate, \<open>t_int \<ge> 2 / fswitch\<close>) on a device
  without faults, the driver acquires \<open>num_dwells * blocks_per_dwell\<close> blocks, and
  this number is at most \<open>floor(N / num_samp)\<close> for \<open>N = floor(rate * t_int)\<close>.
  (With \<open>rate < fswitch\<close> a dwell has no sample: the driver raises on
  \<^verbatim>\<open>N // N_dwell\<close> and acquires no block.) The periodogram estimator is taken to
  return \<open>nbins\<close> values and one frequency axis for every block.
\<close>

theorem dwell_plan_within_budget:
  assumes nf: "\<forall>m. \<not> fails (device_of sdr hw) m"
    and ns: "0 < num_samp" and f: "0 < fswitch" and r: "0 < rate" and v: "2 / fswitch \<le> t_int"
    and shape: "\<forall>iq. length (snd (welch E iq rate (if nbins < 256 then nbins else 256) nbins)) = nbins"
    and fax: "\<forall>iq. fst (welch E iq rate (if nbins < 256 then nbins else 256) nbins) = faxis"
  shows "blocks_read num_samp
           (new_calls (device_of sdr hw)
              (snd (run_fswitch_int E num_samp nbins gain rate fc fthrow t_int fswitch sdr hw)))
         = num_dwells rate t_int fswitch * blocks_per_dwell rate fswitch num_samp
       \<and> num_dwells rate t_int fswitch * blocks_per_dwell rate fswitch num_samp
           \<le> planned_blocks rate t_int num_samp"
proof
  have t: "0 \<le> t_int"
  proof -
    have "0 \<le> 2 / fswitch" using f by simp
    with v show ?thesis by linarith
  qed
  show "num_dwells rate t_int fswitch * blocks_per_dwell rate fswitch num_samp
           \<le> planned_blocks rate t_int num_samp"
    by (rule plan_le_budget [OF ns r f t])
  have M: "0 \<le> \<lfloor>rate / fswitch\<rfloor>" using r f by simp
  show "blocks_read num_samp
           (new_calls (device_of sdr hw)
              (snd (run_fswitch_int E num_samp nbins gain rate fc fthrow t_int fswitch sdr hw)))
         = num_dwells rate t_int fswitch * blocks_per_dwell rate fswitch num_samp"
  proof (cases "\<lfloor>rate / fswitch\<rfloor> = 0")
    case True
    show ?thesis
      unfolding new_calls_append [OF run_fswitch_int_zero_dwell(2) [OF nf ns r f v True]]
      using True by (simp add: blocks_read_def num_dwells_def split: option.splits)
  next
    case False
    with M have nd: "0 < \<lfloor>rate / fswitch\<rfloor>" by linarith
    show ?thesis
      unfolding new_calls_append [OF run_fswitch_int_ok(2) [OF nf ns r f v nd shape fax]]
      by (simp add: blocks_read_append blocks_read_dwell_calls blocks_read_simps
          split: option.splits)
  qed
qed

theorem dwell_plan_within_budget_witness:
  "(\<forall>m. \<not> fails (device_of None example_hw) m)
   \<and> (0::nat) < 3 \<and> (0::real) < 2 \<and> (0::real) < 9 \<and> (2::real) / 2 \<le> 1
   \<and> (\<forall>iq. length (snd (welch example_env iq 9 (if (4::nat) < 256 then 4 else 256) 4)) = 4)
   \<and> (\<forall>iq. fst (welch example_env iq 9 (if (4::nat) < 256 then 4 else 256) 4) = map real [0..<4])
   \<and> blocks_read 3
         (new_calls (device_of None example_hw)
            (snd (run_fswitch_int example_env 3 4 35 9 100 200 1 2 None example_hw))) = 2
   \<and> num_dwells 9 1 2 * blocks_per_dwell 9 2 3 = 2
   \<and> planned_blocks 9 1 3 = 3"
proof -
  have h1: "\<forall>m. \<not> fails (device_of None example_hw) m" by (rule example_hw_nofail)
  have h2: "(0::nat) < 3" by simp
  have h3: "(0::real) < 2" by simp
  have h4: "(0::real) < 9" by simp
  have h5: "(2::real) / 2 \<le> 1" by simp
  have h6: "\<forall>iq. length (snd (welch example_env iq 9 (if (4::nat) < 256 then 4 else 256) 4)) = 4"
    by (rule example_env_shape)
  have h7: "\<forall>iq. fst (welch example_env iq 9 (if (4::nat) < 256 then 4 else 256) 4) = map real [0..<4]"
    by (rule example_env_axis)
  have nd: "num_dwells 9 1 2 = 2" by (simp add: num_dwells_def)
  have bp: "blocks_per_dwell 9 2 3 = 1" by (simp add: blocks_per_dwell_def)
  have pb: "planned_blocks 9 1 3 = 3" by (simp add: planned_blocks_def)
  from dwell_plan_within_budget [OF h1 h2 h3 h4 h5 h6 h7, of 35 100 200] nd bp
  have "blocks_read 3
         (new_calls (device_of None example_hw)
            (snd (run_fswitch_int example_env 3 4 35 9 100 200 1 2 None example_hw))) = 2"
    by simp
  with h1 h2 h3 h4 h5 h6 h7 nd bp pb show ?thesis by simp
qed

subsection \<open>Finalizing a spectral integration\<close>

text \<open>
  Claim C2. On a device without faults, with a positive rate and at least one sample
  per call, the spectral driver returns, and so does the frequency-switched driver for a
  valid configuration with at least one block per dwell (then each switch state has
  accumulated at least one periodogram). The periodogram estimator is taken to return
  \<open>nbins\<close> values and the same frequency axis \<open>faxis\<close> of \<open>nbins\<close> values for
  every block, and the window to have a non-zero sum of squares. Both returned vectors have
  \<open>nbins\<close> entries. What bin \<open>b\<close> of the accumulation holds is found at
  position \<open>(b + nbins div 2) mod nbins\<close>: on the frequency axis the value
  \<open>faxis ! b\<close> plus the centre frequency, and in the spectrum the per-bin sum of the
  periodograms divided by their count and multiplied by
  \<open>((\<Sum>w)\<^sup>2 / \<Sum>(w\<^sup>2)) / rate\<close>, the same factor for every bin. In the
  frequency-switched driver the primary spectrum (the dwells with an even index) is
  centred on \<open>fc\<close> and the alternate one on \<open>fthrow\<close>, each averaged over its
  own count and both scaled with the same window and rate.
\<close>

theorem spectra_finalized:
  assumes nf: "\<forall>m. \<not> fails (device_of sdr hw) m"
    and ns: "0 < num_samp" and r: "0 < rate"
    and shape: "\<forall>iq. length (snd (welch E iq rate (if nbins < 256 then nbins else 256) nbins)) = nbins"
    and fax: "\<forall>iq. fst (welch E iq rate (if nbins < 256 then nbins else 256) nbins) = faxis"
    and flen: "length faxis = nbins"
    and win: "sum_list (map (\<lambda>w. w * w) (get_window E (if nbins < 256 then nbins else 256))) \<noteq> 0"
    and b: "b < nbins"
  shows "(0 \<le> t_int \<longrightarrow>
          (\<exists>freqs p.
             fst (run_spectrum_int E num_samp nbins gain rate fc t_int sdr hw) = Inr (freqs, p)
           \<and> length freqs = nbins \<and> length p = nbins
           \<and> freqs ! ((b + nbins div 2) mod nbins) = faxis ! b + fc
           \<and> p ! ((b + nbins div 2) mod nbins)
               = Num (psd_value
                   (spectrum_sum E (device_of sdr hw) num_samp rate nbins
                      (planned_blocks rate t_int num_samp + 1) b)
                   (planned_blocks rate t_int num_samp + 1)
                   (get_window E (if nbins < 256 then nbins else 256)) rate)))
       \<and> (0 < fswitch \<and> 2 / fswitch \<le> t_int \<and> int num_samp \<le> \<lfloor>rate / fswitch\<rfloor> \<longrightarrow>
          (\<exists>f_on p_on f_off p_off.
             fst (run_fswitch_int E num_samp nbins gain rate fc fthrow t_int fswitch sdr hw)
               = Inr (f_on, p_on, f_off, p_off)
           \<and> length f_on = nbins \<and> length p_on = nbins
           \<and> length f_off = nbins \<and> length p_off = nbins
           \<and> 0 < switch_count True (blocks_per_dwell rate fswitch num_samp) (num_dwells rate t_int fswitch)
           \<and> 0 < switch_count False (blocks_per_dwell rate fswitch num_samp) (num_dwells rate t_int fswitch)
           \<and> f_on ! ((b + nbins div 2) mod nbins) = faxis ! b + fc
           \<and> f_off ! ((b + nbins div 2) mod nbins) = faxis ! b + fthrow
           \<and> p_on ! ((b + nbins div 2) mod nbins)
               = Num (psd_value
                   (switch_sum True E (device_of sdr hw) num_samp rate nbins
                      (blocks_per_dwell rate fswitch num_samp) (num_dwells rate t_int fswitch) b)
                   (switch_count True (blocks_per_dwell rate fswitch num_samp)
                      (num_dwells rate t_int fswitch))
                   (get_window E (if nbins < 256 then nbins else 256)) rate)
           \<and> p_off ! ((b + nbins div 2) mod nbins)
               = Num (psd_value
                   (switch_sum False E (device_of sdr hw) num_samp rate nbins
                      (blocks_per_dwell rate fswitch num_samp) (num_dwells rate t_int fswitch) b)
                   (switch_count False (blocks_per_dwell rate fswitch num_samp)
                      (num_dwells rate t_int fswitch))
                   (get_window E (if nbins < 256 then nbins else 256)) rate)))"
proof (intro conjI impI)
  let ?ps = "if nbins < 256 then nbins else 256"
  let ?w = "get_window E ?ps"
  let ?pos = "(b + nbins div 2) mod nbins"
  have r0: "rate \<noteq> 0" using r by simp
  have fpos: "map (\<lambda>f. f + c) (fftshift faxis) ! ?pos = faxis ! b + c" for c
    using freqs_fftshift_nth [of b faxis c] b flen by simp
  have ppos: "psd_scale (fftshift (np_idiv (map g [0..<nbins]) cnt)) ?w rate ! ?pos
      = Num (psd_value (g b) cnt ?w rate)" if "cnt \<noteq> 0" for g cnt
    using psd_scale_fftshift_nth [of b "map g [0..<nbins]" cnt ?w rate] b that win r0 by simp
  {
    assume t: "0 \<le> t_int"
    have nn: "0 \<le> rate * t_int" using r t by simp
    let ?k = "nat (\<lfloor>rate * t_int\<rfloor> div int num_samp)"
    have pb: "planned_blocks rate t_int num_samp + 1 = Suc ?k" by (simp add: planned_blocks_def)
    have ax: "fst (pgram E (device_of sdr hw) num_samp rate ?ps nbins ?k) = faxis"
      using fax by (simp add: pgram_def)
    note res = run_spectrum_int_ok(1) [OF nf shape ns nn, of gain fc, unfolded ax if_not_P [OF r0]]
    let ?fr = "map (\<lambda>f. f + fc) (fftshift faxis)"
    let ?p = "psd_scale (fftshift (np_idiv
                 (map (spectrum_sum E (device_of sdr hw) num_samp rate nbins (Suc ?k)) [0..<nbins])
                 (Suc ?k))) ?w rate"
    have l1: "length ?fr = nbins" by (simp add: length_fftshift flen)
    have l2: "length ?p = nbins" by (simp add: length_psd_scale length_fftshift length_np_idiv)
    have v1: "?fr ! ?pos = faxis ! b + fc" by (rule fpos)
    have v2: "?p ! ?pos = Num (psd_value
                   (spectrum_sum E (device_of sdr hw) num_samp rate nbins (Suc ?k) b) (Suc ?k) ?w rate)"
      by (rule ppos) simp
    from res l1 l2 v1 v2
    show "\<exists>freqs p.
             fst (run_spectrum_int E num_samp nbins gain rate fc t_int sdr hw) = Inr (freqs, p)
           \<and> length freqs = nbins \<and> length p = nbins
           \<and> freqs ! ?pos = faxis ! b + fc
           \<and> p ! ?pos
               = Num (psd_value
                   (spectrum_sum E (device_of sdr hw) num_samp rate nbins
                      (planned_blocks rate t_int num_samp + 1) b)
                   (planned_blocks rate t_int num_samp + 1) ?w rate)"
      unfolding pb by blast
  }
  {
    assume h: "0 < fswitch \<and> 2 / fswitch \<le> t_int \<and> int num_samp \<le> \<lfloor>rate / fswitch\<rfloor>"
    then have f: "0 < fswitch" and v: "2 / fswitch \<le> t_int"
      and fit: "int num_samp \<le> \<lfloor>rate / fswitch\<rfloor>" by simp_all
    have nd: "0 < \<lfloor>rate / fswitch\<rfloor>" using fit ns by linarith
    let ?L = "blocks_per_dwell rate fswitch num_samp"
    let ?D = "num_dwells rate t_int fswitch"
    have con: "0 < switch_count True ?L ?D" and coff: "0 < switch_count False ?L ?D"
      using switch_count_pos [OF one_block_per_dwell [OF ns fit] two_dwells [OF r f v nd]]
      by simp_all
    have con0: "switch_count True ?L ?D \<noteq> 0" and coff0: "switch_count False ?L ?D \<noteq> 0"
      using con coff by simp_all
    note res = run_fswitch_int_ok(1) [OF nf ns r f v nd shape fax, of gain fc fthrow,
        unfolded if_not_P [OF con0] if_not_P [OF coff0]]
    let ?fon = "map (\<lambda>f. f + fc) (fftshift faxis)"
    let ?foff = "map (\<lambda>f. f + fthrow) (fftshift faxis)"
    let ?pon = "psd_scale (fftshift (np_idiv
                 (map (switch_sum True E (device_of sdr hw) num_samp rate nbins ?L ?D) [0..<nbins])
                 (switch_count True ?L ?D))) ?w rate"
    let ?poff = "psd_scale (fftshift (np_idiv
                 (map (switch_sum False E (device_of sdr hw) num_samp rate nbins ?L ?D) [0..<nbins])
                 (switch_count False ?L ?D))) ?w rate"
    have l1: "length ?fon = nbins" "length ?foff = nbins" by (simp_all add: length_fftshift flen)
    have l2: "length ?pon = nbins" "length ?poff = nbins"
      by (simp_all add: length_psd_scale length_fftshift length_np_idiv)
    have v1: "?fon ! ?pos = faxis ! b + fc" by (rule fpos)
    have v2: "?foff ! ?pos = faxis ! b + fthrow" by (rule fpos)
    have v3: "?pon ! ?pos = Num (psd_value
                   (switch_sum True E (device_of sdr hw) num_samp rate nbins ?L ?D b)
                   (switch_count True ?L ?D) ?w rate)"
      by (rule ppos [OF con0])
    have v4: "?poff ! ?pos = Num (psd_value
                   (switch_sum False E (device_of sdr hw) num_samp rate nbins ?L ?D b)
                   (switch_count False ?L ?D) ?w rate)"
      by (rule ppos [OF coff0])
    from res l1 l2 v1 v2 v3 v4 con coff
    show "\<exists>f_on p_on f_off p_off.
             fst (run_fswitch_int E num_samp nbins gain rate fc fthrow t_int fswitch sdr hw)
               = Inr (f_on, p_on, f_off, p_off)
           \<and> length f_on = nbins \<and> length p_on = nbins
           \<and> length f_off = nbins \<and> length p_off = nbins
           \<and> 0 < switch_count True ?L ?D
           \<and> 0 < switch_count False ?L ?D
           \<and> f_on ! ?pos = faxis ! b + fc
           \<and> f_off ! ?pos = faxis ! b + fthrow
           \<and> p_on ! ?pos
               = Num (psd_value (switch_sum True E (device_of sdr hw) num_samp rate nbins ?L ?D b)
                   (switch_count True ?L ?D) ?w rate)
           \<and> p_off ! ?pos
               = Num (psd_value (switch_sum False E (device_of sdr hw) num_samp rate nbins ?L ?D b)
                   (switch_count False ?L ?D) ?w rate)"
      by blast
  }
qed

theorem spectra_finalized_witness:
  "(\<forall>m. \<not> fails (device_of None example_hw) m)
   \<and> (0::nat) < 2 \<and> (0::real) < 8
   \<and> (\<forall>iq. length (snd (welch example_env iq 8 (if (4::nat) < 256 then 4 else 256) 4)) = 4)
   \<and> (\<forall>iq. fst (welch example_env iq 8 (if (4::nat) < 256 then 4 else 256) 4) = map real [0..<4])
   \<and> length (map real [0..<4]) = 4
   \<and> sum_list (map (\<lambda>w. w * w) (get_window example_env (if (4::nat) < 256 then 4 else 256))) \<noteq> 0
   \<and> (1::nat) < 4
   \<and> (0::real) \<le> 1
   \<and> ((0::real) < 2 \<and> (2::real) / 2 \<le> 1 \<and> int 2 \<le> \<lfloor>(8::real) / 2\<rfloor>)
   \<and> (\<exists>freqs p.
             fst (run_spectrum_int example_env 2 4 35 8 100 1 None example_hw) = Inr (freqs, p)
           \<and> length freqs = 4 \<and> length p = 4
           \<and> freqs ! ((1 + 4 div 2) mod 4) = map real [0..<4] ! 1 + 100
           \<and> p ! ((1 + 4 div 2) mod 4)
               = Num (psd_value
                   (spectrum_sum example_env (device_of None example_hw) 2 8 4
                      (planned_blocks 8 1 2 + 1) 1)
                   (planned_blocks 8 1 2 + 1)
                   (get_window example_env (if (4::nat) < 256 then 4 else 256)) 8))
   \<and> (\<exists>f_on p_on f_off p_off.
             fst (run_fswitch_int example_env 2 4 35 8 100 200 1 2 None example_hw)
               = Inr (f_on, p_on, f_off, p_off)
           \<and> length f_on = 4 \<and> length p_on = 4
           \<and> length f_off = 4 \<and> length p_off = 4
           \<and> 0 < switch_count True (blocks_per_dwell 8 2 2) (num_dwells 8 1 2)
           \<and> 0 < switch_count False (blocks_per_dwell 8 2 2) (num_dwells 8 1 2)
           \<and> f_on ! ((1 + 4 div 2) mod 4) = map real [0..<4] ! 1 + 100
           \<and> f_off ! ((1 + 4 div 2) mod 4) = map real [0..<4] ! 1 + 200
           \<and> p_on ! ((1 + 4 div 2) mod 4)
               = Num (psd_value
                   (switch_sum True example_env (device_of None example_hw) 2 8 4
                      (blocks_per_dwell 8 2 2) (num_dwells 8 1 2) 1)
                   (switch_count True (blocks_per_dwell 8 2 2) (num_dwells 8 1 2))
                   (get_window example_env (if (4::nat) < 256 then 4 else 256)) 8)
           \<and> p_off ! ((1 + 4 div 2) mod 4)
               = Num (psd_value
                   (switch_sum False example_env (device_of None example_hw) 2 8 4
                      (blocks_per_dwell 8 2 2) (num_dwells 8 1 2) 1)
                   (switch_count False (blocks_per_dwell 8 2 2) (num_dwells 8 1 2))
                   (get_window example_env (if (4::nat) < 256 then 4 else 256)) 8))"
proof -
  have h1: "\<forall>m. \<not> fails (device_of None example_hw) m" by (rule example_hw_nofail)
  have h2: "(0::nat) < 2" by simp
  have h3: "(0::real) < 8" by simp
  have h4: "\<forall>iq. length (snd (welch example_env iq 8 (if (4::nat) < 256 then 4 else 256) 4)) = 4"
    by (rule example_env_shape)
  have h5: "\<forall>iq. fst (welch example_env iq 8 (if (4::nat) < 256 then 4 else 256) 4) = map real [0..<4]"
    by (rule example_env_axis)
  have h6: "length (map real [0..<4]) = 4" by simp
  have h7: "sum_list (map (\<lambda>w. w * w) (get_window example_env (if (4::nat) < 256 then 4 else 256))) \<noteq> 0"
    by (simp add: example_env_def numeral_eq_Suc)
  have h8: "(1::nat) < 4" by simp
  have a1: "(0::real) \<le> 1" by simp
  have a2: "(0::real) < 2 \<and> (2::real) / 2 \<le> 1 \<and> int 2 \<le> \<lfloor>(8::real) / 2\<rfloor>" by simp
  note inst = spectra_finalized [OF h1 h2 h3 h4 h5 h6 h7 h8, of 1 35 100 2 200]
  from inst a1 have c1: "(\<exists>freqs p.
             fst (run_spectrum_int example_env 2 4 35 8 100 1 None example_hw) = Inr (freqs, p)
           \<and> length freqs = 4 \<and> length p = 4
           \<and> freqs ! ((1 + 4 div 2) mod 4) = map real [0..<4] ! 1 + 100
           \<and> p ! ((1 + 4 div 2) mod 4)
               = Num (psd_value
                   (spectrum_sum example_env (device_of None example_hw) 2 8 4
                      (planned_blocks 8 1 2 + 1) 1)
                   (planned_blocks 8 1 2 + 1)
                   (get_window example_env (if (4::nat) < 256 then 4 else 256)) 8))"
    by blast
  from inst a2 have c2: "(\<exists>f_on p_on f_off p_off.
             fst (run_fswitch_int example_env 2 4 35 8 100 200 1 2 None example_hw)
               = Inr (f_on, p_on, f_off, p_off)
           \<and> length f_on = 4 \<and> length p_on = 4
           \<and> length f_off = 4 \<and> length p_off = 4
           \<and> 0 < switch_count True (blocks_per_dwell 8 2 2) (num_dwells 8 1 2)
           \<and> 0 < switch_count False (blocks_per_dwell 8 2 2) (num_dwells 8 1 2)
           \<and> f_on ! ((1 + 4 div 2) mod 4) = map real [0..<4] ! 1 + 100
           \<and> f_off ! ((1 + 4 div 2) mod 4) = map real [0..<4] ! 1 + 200
           \<and> p_on ! ((1 + 4 div 2) mod 4)
               = Num (psd_value
                   (switch_sum True example_env (device_of None example_hw) 2 8 4
                      (blocks_per_dwell 8 2 2) (num_dwells 8 1 2) 1)
                   (switch_count True (blocks_per_dwell 8 2 2) (num_dwells 8 1 2))
                   (get_window example_env (if (4::nat) < 256 then 4 else 256)) 8)
           \<and> p_off ! ((1 + 4 div 2) mod 4)
               = Num (psd_value
                   (switch_sum False example_env (device_of None example_hw) 2 8 4
                      (blocks_per_dwell 8 2 2) (num_dwells 8 1 2) 1)
                   (switch_count False (blocks_per_dwell 8 2 2) (num_dwells 8 1 2))
                   (get_window example_env (if (4::nat) < 256 then 4 else 256)) 8))"
    by blast
  from h1 h2 h3 h4 h5 h6 h7 h8 a1 a2 c1 c2 show ?thesis by blast
qed

subsection \<open>An integration without blocks\<close>

text \<open>
  Claim C1 does not hold of the code. The frequency-switched driver is called with a
  valid configuration (\<open>t_int \<ge> 2 / fswitch\<close>) in which a dwell of
  \<open>floor(rate / fswitch) = 4000\<close> samples is shorter than one block of
  \<open>4096\<close> samples: it plans two dwells of no block, reads nothing, divides both
  accumulators by their count zero, which in numpy does not raise, and returns two
  spectra in which every bin is not-a-number. The total-power driver does raise on a
  run without blocks: with \<open>floor(rate * t_int) = 4000\<close> samples to collect in
  blocks of \<open>4096\<close> the stream delivers no block and the division by
  \<^verbatim>\<open>num_samp * cnt\<close> raises.
\<close>

theorem zero_blocks_reported_as_nan:
  "(2::real) / 250 \<le> 1/100
   \<and> blocks_per_dwell 1000000 250 4096 = 0
   \<and> num_dwells 1000000 (1/100) 250 = 2
   \<and> fst (run_fswitch_int example_env 4096 4 35 1000000 1420400000 1420800000 (1/100) 250
             None example_hw)
       = Inr (replicate 4 1420400000, replicate 4 NaN, replicate 4 1420800000, replicate 4 NaN)
   \<and> blocks_read 4096
         (calls (snd (run_fswitch_int example_env 4096 4 35 1000000 1420400000 1420800000 (1/100) 250
                        None example_hw))) = 0
   \<and> planned_blocks 1000000 (1/250) 4096 = 0
   \<and> fst (run_total_power_int 4096 35 1000000 1420400000 (1/250) None example_hw)
       = Inl ZeroDivisionError"
  by code_simp

end
